theory Spec2Isabelle
  imports Main "HOL-Library.Word"
begin

unbundle bit_operations_syntax

section \<open>NGCat: a cache facade with a durable overlay for permanent entries\<close>

text \<open>
  The Go package \<^verbatim>\<open>ngcat\<close> wraps an external cache engine (freecache) and keeps every
  entry written without expiration in an in-memory map, \<^verbatim>\<open>persistData\<close>, which is
  saved to and loaded from a snapshot file. This theory embeds the facade
  (\<^verbatim>\<open>setWithPersist\<close>, \<^verbatim>\<open>getWithPersist\<close>, \<^verbatim>\<open>SetPermanent\<close>, \<^verbatim>\<open>GetPermanent\<close>, the typed
  getters, \<^verbatim>\<open>NewNGCache\<close>) and the snapshot codec (\<^verbatim>\<open>saveToBinary\<close>, \<^verbatim>\<open>loadFromBinary\<close>,
  \<^verbatim>\<open>saveToJSON\<close>, \<^verbatim>\<open>loadFromJSON\<close>, \<^verbatim>\<open>saveToPersist\<close>, \<^verbatim>\<open>loadFromPersist\<close>).

  Go values returned as \<^verbatim>\<open>(value, error)\<close> are pairs \<open>(value, error option)\<close>, with \<open>None\<close>
  for \<^verbatim>\<open>nil\<close>. Mutation of the receiver \<^verbatim>\<open>ng\<close> is explicit state passing. In the first
  sections a byte slice is the sequence of its bytes: no function of the package
  writes into a slice it was given or has stored (\<^verbatim>\<open>copy\<close> and \<^verbatim>\<open>io.ReadFull\<close> fill slices
  made on the spot). A caller can write into a slice it shares with the map; the
  section on slices as references models the same functions over a heap for that.
\<close>

subsection \<open>Bytes, strings and errors\<close>

type_synonym byte = "8 word"
type_synonym bytes = "byte list"

text \<open>A Go string is a sequence of bytes; \<^verbatim>\<open>[]byte(s)\<close> and \<^verbatim>\<open>string(b)\<close> copy it unchanged.\<close>

definition bytes_of_string :: "string \<Rightarrow> bytes" where
  "bytes_of_string s = map of_char s"

definition string_of_bytes :: "bytes \<Rightarrow> string" where
  "string_of_bytes b = map (\<lambda>w. char_of (unat w)) b"

text \<open>
  Errors. \<open>ErrKeyNotFound\<close> and \<open>ErrInvalidType\<close> are the package's two sentinel values.
  \<open>EngineError\<close> is any error returned by the cache engine, \<open>IOError\<close> any error of the
  operating system or of a short read. The remaining constructors are the
  \<^verbatim>\<open>fmt.Errorf\<close> call sites of the persistence code, one constructor per format string,
  carrying the formatted argument.
\<close>

datatype error =
    ErrKeyNotFound
  | ErrInvalidType
  | EngineError string
  | IOError string
  | ErrMkdir error
  | ErrCreateJSON error
  | ErrCreateBinary error
  | ErrOpenJSON error
  | ErrParseJSON error
  | ErrOpenBinary error
  | ErrReadMagic error
  | ErrBadMagic "32 word"
  | ErrReadVersion error
  | ErrBadVersion "32 word"
  | ErrReadTimestamp error
  | ErrReadCount error
  | ErrReadKeyLen error
  | ErrReadKey error
  | ErrReadValueLen error
  | ErrReadValue error
  | ErrUnsupportedFormat int

subsection \<open>Configuration and snapshot documents\<close>

text \<open>\<^verbatim>\<open>type PersistFormat int\<close>, with \<^verbatim>\<open>FormatJSON = iota\<close> and \<^verbatim>\<open>FormatBinary\<close> after it.\<close>

type_synonym PersistFormat = int

definition FormatJSON :: PersistFormat where
  "FormatJSON = 0"

definition FormatBinary :: PersistFormat where
  "FormatBinary = 1"

record PersistConfig =
  Enabled :: bool
  FilePath :: string
  FileName :: string
  Format :: PersistFormat
  Interval :: int

record PersistEntry =
  Key :: string
  Value :: bytes

record PersistData =
  Version :: int
  Timestamp :: "64 word"
  Entries :: "PersistEntry list"

definition BinaryMagic :: "32 word" where
  "BinaryMagic = 0x4E474341"

definition BinaryVersion :: "32 word" where
  "BinaryVersion = 1"

subsection \<open>The external collaborators\<close>

text \<open>
  The cache engine (\<^verbatim>\<open>github.com/coocood/freecache\<close>) and the JSON library
  (\<^verbatim>\<open>encoding/json\<close>) are not part of the package. They are parameters of the model:
  \<open>'e\<close> is the engine's state, \<open>cache_Set\<close> and \<open>cache_Get\<close> are \<^verbatim>\<open>Cache.Set\<close> and
  \<^verbatim>\<open>Cache.Get\<close>, each returning the engine's next state (an engine may evict or expire
  entries whenever it is called).
\<close>

record 'e deps =
  cache_New :: "int \<Rightarrow> 'e"
  cache_Set :: "'e \<Rightarrow> bytes \<Rightarrow> bytes \<Rightarrow> int \<Rightarrow> error option \<times> 'e"
  cache_Get :: "'e \<Rightarrow> bytes \<Rightarrow> (bytes \<times> error option) \<times> 'e"
  json_Encode :: "PersistData \<Rightarrow> bytes"
  json_Decode :: "bytes \<Rightarrow> error + PersistData"

subsection \<open>The facade\<close>

record 'e NGCache =
  cache :: 'e
  persistConfig :: "PersistConfig option"
  persistData :: "string \<rightharpoonup> bytes"

text \<open>\<^verbatim>\<open>ng.persistConfig != nil && ng.persistConfig.Enabled\<close>\<close>

definition persistEnabled :: "'e NGCache \<Rightarrow> bool" where
  "persistEnabled ng = (case persistConfig ng of None \<Rightarrow> False | Some c \<Rightarrow> Enabled c)"

text \<open>
  \<^verbatim>\<open>setWithPersist\<close>: when \<^verbatim>\<open>expireSeconds <= 0\<close> a fresh copy of the value is stored in
  \<^verbatim>\<open>persistData\<close>; then, in every case, the engine is written with the caller's
  \<^verbatim>\<open>expireSeconds\<close> and the engine's result is returned.
\<close>

definition setWithPersist ::
  "'e deps \<Rightarrow> 'e NGCache \<Rightarrow> string \<Rightarrow> bytes \<Rightarrow> int \<Rightarrow> error option \<times> 'e NGCache" where
  "setWithPersist d ng key val expireSeconds =
     (let ng1 = (if expireSeconds \<le> 0
                 then ng\<lparr>persistData := (persistData ng)(key \<mapsto> val)\<rparr>
                 else ng);
          (err, c) = cache_Set d (cache ng1) (bytes_of_string key) val expireSeconds
      in (err, ng1\<lparr>cache := c\<rparr>))"

text \<open>
  \<^verbatim>\<open>getWithPersist\<close>: the engine first; on any engine error the permanent map; on a hit
  there the entry is written back to the engine with TTL 0 and the result of that
  write is dropped.
\<close>

definition getWithPersist ::
  "'e deps \<Rightarrow> 'e NGCache \<Rightarrow> string \<Rightarrow> (bytes \<times> error option) \<times> 'e NGCache" where
  "getWithPersist d ng key =
     (case cache_Get d (cache ng) (bytes_of_string key) of
        ((val, None), c) \<Rightarrow> ((val, None), ng\<lparr>cache := c\<rparr>)
      | ((_, Some _), c) \<Rightarrow>
          (case persistData ng key of
             Some persistValue \<Rightarrow>
               (let (_, c') = cache_Set d c (bytes_of_string key) persistValue 0
                in ((persistValue, None), ng\<lparr>cache := c'\<rparr>))
           | None \<Rightarrow> (([], Some ErrKeyNotFound), ng\<lparr>cache := c\<rparr>)))"

text \<open>\<^verbatim>\<open>SetPermanent\<close>: the engine first; the permanent map only after the engine accepted
  the entry, and only with persistence enabled.\<close>

definition SetPermanent ::
  "'e deps \<Rightarrow> 'e NGCache \<Rightarrow> bytes \<Rightarrow> bytes \<Rightarrow> error option \<times> 'e NGCache" where
  "SetPermanent d ng key val =
     (case cache_Set d (cache ng) key val 0 of
        (Some err, c) \<Rightarrow> (Some err, ng\<lparr>cache := c\<rparr>)
      | (None, c) \<Rightarrow>
          (if persistEnabled ng
           then (None, ng\<lparr>cache := c, persistData := (persistData ng)(string_of_bytes key \<mapsto> val)\<rparr>)
           else (None, ng\<lparr>cache := c\<rparr>)))"

text \<open>\<^verbatim>\<open>GetPermanent\<close>: as \<^verbatim>\<open>getWithPersist\<close>, but the permanent map is read only with
  persistence enabled, and a miss returns the engine's own error.\<close>

definition GetPermanent ::
  "'e deps \<Rightarrow> 'e NGCache \<Rightarrow> bytes \<Rightarrow> (bytes \<times> error option) \<times> 'e NGCache" where
  "GetPermanent d ng key =
     (case cache_Get d (cache ng) key of
        ((val, None), c) \<Rightarrow> ((val, None), ng\<lparr>cache := c\<rparr>)
      | ((_, Some err), c) \<Rightarrow>
          (if persistEnabled ng
           then (case persistData ng (string_of_bytes key) of
                   Some val \<Rightarrow>
                     (let (_, c') = cache_Set d c key val 0
                      in ((val, None), ng\<lparr>cache := c'\<rparr>))
                 | None \<Rightarrow> (([], Some err), ng\<lparr>cache := c\<rparr>))
           else (([], Some err), ng\<lparr>cache := c\<rparr>)))"

subsection \<open>Fixed-width scalars\<close>

text \<open>
  \<^verbatim>\<open>binary.LittleEndian.PutUint32\<close>, \<^verbatim>\<open>Uint32\<close>, \<^verbatim>\<open>PutUint64\<close> and \<^verbatim>\<open>Uint64\<close>: byte \<open>i\<close> is
  \<^verbatim>\<open>byte(v >> (8*i))\<close>, and the value is the bitwise or of the bytes shifted back. The
  readers are only ever applied to slices of exactly 4 or 8 bytes.
\<close>

definition PutUint32 :: "32 word \<Rightarrow> bytes" where
  "PutUint32 v = [ucast v, ucast (drop_bit 8 v), ucast (drop_bit 16 v), ucast (drop_bit 24 v)]"

definition Uint32 :: "bytes \<Rightarrow> 32 word" where
  "Uint32 b = ucast (b ! 0) OR push_bit 8 (ucast (b ! 1)) OR push_bit 16 (ucast (b ! 2))
              OR push_bit 24 (ucast (b ! 3))"

definition PutUint64 :: "64 word \<Rightarrow> bytes" where
  "PutUint64 v = [ucast v, ucast (drop_bit 8 v), ucast (drop_bit 16 v), ucast (drop_bit 24 v),
                  ucast (drop_bit 32 v), ucast (drop_bit 40 v), ucast (drop_bit 48 v),
                  ucast (drop_bit 56 v)]"

definition Uint64 :: "bytes \<Rightarrow> 64 word" where
  "Uint64 b = ucast (b ! 0) OR push_bit 8 (ucast (b ! 1)) OR push_bit 16 (ucast (b ! 2))
              OR push_bit 24 (ucast (b ! 3)) OR push_bit 32 (ucast (b ! 4))
              OR push_bit 40 (ucast (b ! 5)) OR push_bit 48 (ucast (b ! 6))
              OR push_bit 56 (ucast (b ! 7))"

text \<open>
  The typed getters. An \<^verbatim>\<open>int32\<close> or \<^verbatim>\<open>int64\<close> is its two's-complement word, a
  \<^verbatim>\<open>float32\<close> or \<^verbatim>\<open>float64\<close> is its IEEE-754 bit pattern (the source reinterprets the bits
  through an unsafe pointer), so the zero value of each of them is the word \<open>0\<close>.
\<close>

definition GetInt32 :: "'e deps \<Rightarrow> 'e NGCache \<Rightarrow> string \<Rightarrow> (32 word \<times> error option) \<times> 'e NGCache" where
  "GetInt32 d ng key =
     (case getWithPersist d ng key of
        ((_, Some err), ng') \<Rightarrow> ((0, Some err), ng')
      | ((data, None), ng') \<Rightarrow>
          (if length data \<noteq> 4 then ((0, Some ErrInvalidType), ng')
           else ((Uint32 data, None), ng')))"

definition GetInt64 :: "'e deps \<Rightarrow> 'e NGCache \<Rightarrow> string \<Rightarrow> (64 word \<times> error option) \<times> 'e NGCache" where
  "GetInt64 d ng key =
     (case getWithPersist d ng key of
        ((_, Some err), ng') \<Rightarrow> ((0, Some err), ng')
      | ((data, None), ng') \<Rightarrow>
          (if length data \<noteq> 8 then ((0, Some ErrInvalidType), ng')
           else ((Uint64 data, None), ng')))"

definition GetBool :: "'e deps \<Rightarrow> 'e NGCache \<Rightarrow> string \<Rightarrow> (bool \<times> error option) \<times> 'e NGCache" where
  "GetBool d ng key =
     (case getWithPersist d ng key of
        ((_, Some err), ng') \<Rightarrow> ((False, Some err), ng')
      | ((data, None), ng') \<Rightarrow>
          (if length data \<noteq> 1 then ((False, Some ErrInvalidType), ng')
           else ((data ! 0 = 1, None), ng')))"

definition GetFloat32 :: "'e deps \<Rightarrow> 'e NGCache \<Rightarrow> string \<Rightarrow> (32 word \<times> error option) \<times> 'e NGCache" where
  "GetFloat32 d ng key =
     (case getWithPersist d ng key of
        ((_, Some err), ng') \<Rightarrow> ((0, Some err), ng')
      | ((data, None), ng') \<Rightarrow>
          (if length data \<noteq> 4 then ((0, Some ErrInvalidType), ng')
           else ((Uint32 data, None), ng')))"

definition GetFloat64 :: "'e deps \<Rightarrow> 'e NGCache \<Rightarrow> string \<Rightarrow> (64 word \<times> error option) \<times> 'e NGCache" where
  "GetFloat64 d ng key =
     (case getWithPersist d ng key of
        ((_, Some err), ng') \<Rightarrow> ((0, Some err), ng')
      | ((data, None), ng') \<Rightarrow>
          (if length data \<noteq> 8 then ((0, Some ErrInvalidType), ng')
           else ((Uint64 data, None), ng')))"

subsection \<open>Files\<close>

text \<open>
  The file system as the persistence code sees it. A path holds a readable file, a
  file that cannot be opened, or nothing. \<open>mkdir_fails\<close> and \<open>create_fails\<close> say where
  \<^verbatim>\<open>os.MkdirAll\<close> and \<^verbatim>\<open>os.Create\<close> fail, and \<open>room\<close> is the number of bytes that can still
  be written (\<open>None\<close>: no limit), so that every error return of the writers is a
  branch of the model.
\<close>

datatype fnode = Absent | Unreadable | File bytes

record filesys =
  nodes :: "string \<Rightarrow> fnode"
  mkdir_fails :: "string \<Rightarrow> bool"
  create_fails :: "string \<Rightarrow> bool"
  room :: "nat option"

text \<open>\<^verbatim>\<open>filepath.Join(dir, name)\<close>; the cleaning of the joined path is not modelled.\<close>

definition filepath_Join :: "string \<Rightarrow> string \<Rightarrow> string" where
  "filepath_Join dir name = dir @ ''/'' @ name"

text \<open>An open file being written: what it holds so far and the room left.\<close>

record wfile =
  written :: bytes
  wroom :: "nat option"

text \<open>\<^verbatim>\<open>file.Write\<close>: all of the bytes, or as many as fit together with an error.\<close>

definition file_Write :: "wfile \<Rightarrow> bytes \<Rightarrow> error option \<times> wfile" where
  "file_Write f bs =
     (case wroom f of
        None \<Rightarrow> (None, f\<lparr>written := written f @ bs\<rparr>)
      | Some n \<Rightarrow>
          (if length bs \<le> n
           then (None, f\<lparr>written := written f @ bs, wroom := Some (n - length bs)\<rparr>)
           else (Some (IOError ''short write''),
                 f\<lparr>written := written f @ take n bs, wroom := Some 0\<rparr>)))"

text \<open>\<^verbatim>\<open>binary.Write(file, binary.LittleEndian, v)\<close> for a \<^verbatim>\<open>uint32\<close> and for an \<^verbatim>\<open>int64\<close>.\<close>

definition binary_Write32 :: "wfile \<Rightarrow> 32 word \<Rightarrow> error option \<times> wfile" where
  "binary_Write32 f v = file_Write f (PutUint32 v)"

definition binary_Write64 :: "wfile \<Rightarrow> 64 word \<Rightarrow> error option \<times> wfile" where
  "binary_Write64 f v = file_Write f (PutUint64 v)"

text \<open>
  \<^verbatim>\<open>io.ReadFull\<close> on the unread rest of a file: exactly \<open>n\<close> bytes, or an error when fewer
  are left. Reading no bytes succeeds, also at the end of the file.
\<close>

definition ReadFull :: "bytes \<Rightarrow> nat \<Rightarrow> (bytes \<times> error option) \<times> bytes" where
  "ReadFull r n =
     (if n \<le> length r then ((take n r, None), drop n r)
      else ((r, Some (IOError (if r = [] then ''EOF'' else ''unexpected EOF''))), []))"

text \<open>\<^verbatim>\<open>binary.Read(file, binary.LittleEndian, &v)\<close> for a \<^verbatim>\<open>uint32\<close> and for an \<^verbatim>\<open>int64\<close>.\<close>

definition binary_Read32 :: "bytes \<Rightarrow> (32 word \<times> error option) \<times> bytes" where
  "binary_Read32 r =
     (case ReadFull r 4 of
        ((_, Some err), r') \<Rightarrow> ((0, Some err), r')
      | ((b, None), r') \<Rightarrow> ((Uint32 b, None), r'))"

definition binary_Read64 :: "bytes \<Rightarrow> (64 word \<times> error option) \<times> bytes" where
  "binary_Read64 r =
     (case ReadFull r 8 of
        ((_, Some err), r') \<Rightarrow> ((0, Some err), r')
      | ((b, None), r') \<Rightarrow> ((Uint64 b, None), r'))"

subsection \<open>Writing a snapshot\<close>

text \<open>The loop of \<^verbatim>\<open>saveToBinary\<close> over \<^verbatim>\<open>data.Entries\<close>: four writes per entry, each of
  which may end the function with its error. \<^verbatim>\<open>uint32(len(...))\<close> keeps the low 32 bits
  of a length.\<close>

fun write_entries :: "wfile \<Rightarrow> PersistEntry list \<Rightarrow> error option \<times> wfile" where
  "write_entries f [] = (None, f)"
| "write_entries f (entry # rest) =
     (case binary_Write32 f (word_of_nat (length (Key entry))) of
        (Some err, f1) \<Rightarrow> (Some err, f1)
      | (None, f1) \<Rightarrow>
     (case file_Write f1 (bytes_of_string (Key entry)) of
        (Some err, f2) \<Rightarrow> (Some err, f2)
      | (None, f2) \<Rightarrow>
     (case binary_Write32 f2 (word_of_nat (length (Value entry))) of
        (Some err, f3) \<Rightarrow> (Some err, f3)
      | (None, f3) \<Rightarrow>
     (case file_Write f3 (Value entry) of
        (Some err, f4) \<Rightarrow> (Some err, f4)
      | (None, f4) \<Rightarrow> write_entries f4 rest))))"

text \<open>The body of \<^verbatim>\<open>saveToBinary\<close> once the file is created.\<close>

definition write_binary :: "wfile \<Rightarrow> PersistData \<Rightarrow> error option \<times> wfile" where
  "write_binary f data =
     (case binary_Write32 f BinaryMagic of
        (Some err, f1) \<Rightarrow> (Some err, f1)
      | (None, f1) \<Rightarrow>
     (case binary_Write32 f1 BinaryVersion of
        (Some err, f2) \<Rightarrow> (Some err, f2)
      | (None, f2) \<Rightarrow>
     (case binary_Write64 f2 (Timestamp data) of
        (Some err, f3) \<Rightarrow> (Some err, f3)
      | (None, f3) \<Rightarrow>
     (case binary_Write32 f3 (word_of_nat (length (Entries data))) of
        (Some err, f4) \<Rightarrow> (Some err, f4)
      | (None, f4) \<Rightarrow> write_entries f4 (Entries data)))))"

text \<open>\<^verbatim>\<open>os.Create\<close> truncates the file; what was written before an error stays in it.\<close>

definition close_file :: "filesys \<Rightarrow> string \<Rightarrow> wfile \<Rightarrow> filesys" where
  "close_file fs filePath f = fs\<lparr>nodes := (nodes fs)(filePath := File (written f)), room := wroom f\<rparr>"

definition saveToBinary :: "filesys \<Rightarrow> string \<Rightarrow> PersistData \<Rightarrow> error option \<times> filesys" where
  "saveToBinary fs filePath data =
     (if create_fails fs filePath then (Some (ErrCreateBinary (IOError ''create'')), fs)
      else (let (err, f) = write_binary \<lparr>written = [], wroom = room fs\<rparr> data
            in (err, close_file fs filePath f)))"

definition saveToJSON ::
  "'e deps \<Rightarrow> filesys \<Rightarrow> string \<Rightarrow> PersistData \<Rightarrow> error option \<times> filesys" where
  "saveToJSON d fs filePath data =
     (if create_fails fs filePath then (Some (ErrCreateJSON (IOError ''create'')), fs)
      else (let (err, f) = file_Write \<lparr>written = [], wroom = room fs\<rparr> (json_Encode d data)
            in (err, close_file fs filePath f)))"

text \<open>
  \<^verbatim>\<open>for key, value := range ng.persistData\<close> visits the entries of the map in an order
  that Go leaves open. The order is the argument \<open>order\<close>, a list of keys; keys that
  are not in the map contribute nothing.
\<close>

definition collect_entries :: "string list \<Rightarrow> (string \<rightharpoonup> bytes) \<Rightarrow> PersistEntry list" where
  "collect_entries order m =
     concat (map (\<lambda>k. case m k of None \<Rightarrow> [] | Some v \<Rightarrow> [\<lparr>Key = k, Value = v\<rparr>]) order)"

definition snapshot_dir :: "PersistConfig \<Rightarrow> string" where
  "snapshot_dir cfg = (if FilePath cfg = [] then ''.'' else FilePath cfg)"

definition snapshot_path :: "PersistConfig \<Rightarrow> string" where
  "snapshot_path cfg = filepath_Join (snapshot_dir cfg) (FileName cfg)"

text \<open>\<^verbatim>\<open>saveToPersist\<close>; \<open>now\<close> is \<^verbatim>\<open>time.Now().Unix()\<close>.\<close>

definition saveToPersist ::
  "'e deps \<Rightarrow> filesys \<Rightarrow> 'e NGCache \<Rightarrow> string list \<Rightarrow> 64 word \<Rightarrow> error option \<times> filesys" where
  "saveToPersist d fs ng order now =
     (case persistConfig ng of
        None \<Rightarrow> (None, fs)
      | Some cfg \<Rightarrow>
          (if \<not> Enabled cfg then (None, fs)
           else if mkdir_fails fs (snapshot_dir cfg) then (Some (ErrMkdir (IOError ''mkdir'')), fs)
           else (let persistData' =
                       \<lparr>Version = 1, Timestamp = now,
                        Entries = collect_entries order (persistData ng)\<rparr>
                 in if Format cfg = FormatJSON then saveToJSON d fs (snapshot_path cfg) persistData'
                    else if Format cfg = FormatBinary then saveToBinary fs (snapshot_path cfg) persistData'
                    else (Some (ErrUnsupportedFormat (Format cfg)), fs))))"

subsection \<open>Loading a snapshot\<close>

text \<open>One recovered entry goes into the permanent map and into the engine with TTL 0;
  the engine's result is dropped.\<close>

definition store_loaded :: "'e deps \<Rightarrow> 'e NGCache \<Rightarrow> bytes \<Rightarrow> bytes \<Rightarrow> 'e NGCache" where
  "store_loaded d ng keyBytes valueBytes =
     (let (_, c) = cache_Set d (cache ng) keyBytes valueBytes 0
      in ng\<lparr>persistData := (persistData ng)(string_of_bytes keyBytes \<mapsto> valueBytes), cache := c\<rparr>)"

text \<open>The loop of \<^verbatim>\<open>loadFromJSON\<close> over the decoded entries.\<close>

fun load_entries :: "'e deps \<Rightarrow> PersistEntry list \<Rightarrow> 'e NGCache \<Rightarrow> 'e NGCache" where
  "load_entries d [] ng = ng"
| "load_entries d (entry # rest) ng =
     load_entries d rest (store_loaded d ng (bytes_of_string (Key entry)) (Value entry))"

definition loadFromJSON ::
  "'e deps \<Rightarrow> filesys \<Rightarrow> 'e NGCache \<Rightarrow> string \<Rightarrow> error option \<times> 'e NGCache" where
  "loadFromJSON d fs ng filePath =
     (case nodes fs filePath of
        File content \<Rightarrow>
          (case json_Decode d content of
             Inl err \<Rightarrow> (Some (ErrParseJSON err), ng)
           | Inr data \<Rightarrow> (None, load_entries d (Entries data) ng))
      | _ \<Rightarrow> (Some (ErrOpenJSON (IOError ''open'')), ng))"

text \<open>The loop of \<^verbatim>\<open>loadFromBinary\<close>: \<open>n\<close> entries are still to be read from the rest \<open>r\<close>
  of the file. An entry that cannot be read ends the function with an error; the
  entries stored before it stay.\<close>

fun read_entries :: "'e deps \<Rightarrow> nat \<Rightarrow> bytes \<Rightarrow> 'e NGCache \<Rightarrow> error option \<times> 'e NGCache" where
  "read_entries d 0 r ng = (None, ng)"
| "read_entries d (Suc n) r ng =
     (case binary_Read32 r of
        ((_, Some err), _) \<Rightarrow> (Some (ErrReadKeyLen err), ng)
      | ((keyLen, None), r1) \<Rightarrow>
     (case ReadFull r1 (unat keyLen) of
        ((_, Some err), _) \<Rightarrow> (Some (ErrReadKey err), ng)
      | ((keyBytes, None), r2) \<Rightarrow>
     (case binary_Read32 r2 of
        ((_, Some err), _) \<Rightarrow> (Some (ErrReadValueLen err), ng)
      | ((valueLen, None), r3) \<Rightarrow>
     (case ReadFull r3 (unat valueLen) of
        ((_, Some err), _) \<Rightarrow> (Some (ErrReadValue err), ng)
      | ((valueBytes, None), r4) \<Rightarrow>
          read_entries d n r4 (store_loaded d ng keyBytes valueBytes)))))"

text \<open>The body of \<^verbatim>\<open>loadFromBinary\<close> once the file is open: magic, version, timestamp,
  entry count, entries.\<close>

definition read_binary :: "'e deps \<Rightarrow> bytes \<Rightarrow> 'e NGCache \<Rightarrow> error option \<times> 'e NGCache" where
  "read_binary d r ng =
     (case binary_Read32 r of
        ((_, Some err), _) \<Rightarrow> (Some (ErrReadMagic err), ng)
      | ((magic, None), r1) \<Rightarrow>
     (if magic \<noteq> BinaryMagic then (Some (ErrBadMagic magic), ng)
      else
     (case binary_Read32 r1 of
        ((_, Some err), _) \<Rightarrow> (Some (ErrReadVersion err), ng)
      | ((version, None), r2) \<Rightarrow>
     (if version \<noteq> BinaryVersion then (Some (ErrBadVersion version), ng)
      else
     (case binary_Read64 r2 of
        ((_, Some err), _) \<Rightarrow> (Some (ErrReadTimestamp err), ng)
      | ((timestamp, None), r3) \<Rightarrow>
     (case binary_Read32 r3 of
        ((_, Some err), _) \<Rightarrow> (Some (ErrReadCount err), ng)
      | ((entryCount, None), r4) \<Rightarrow> read_entries d (unat entryCount) r4 ng))))))"

definition loadFromBinary ::
  "'e deps \<Rightarrow> filesys \<Rightarrow> 'e NGCache \<Rightarrow> string \<Rightarrow> error option \<times> 'e NGCache" where
  "loadFromBinary d fs ng filePath =
     (case nodes fs filePath of
        File content \<Rightarrow> read_binary d content ng
      | _ \<Rightarrow> (Some (ErrOpenBinary (IOError ''open'')), ng))"

text \<open>\<^verbatim>\<open>loadFromPersist\<close>: nothing to do without persistence or without a file.\<close>

definition loadFromPersist ::
  "'e deps \<Rightarrow> filesys \<Rightarrow> 'e NGCache \<Rightarrow> error option \<times> 'e NGCache" where
  "loadFromPersist d fs ng =
     (case persistConfig ng of
        None \<Rightarrow> (None, ng)
      | Some cfg \<Rightarrow>
          (if \<not> Enabled cfg then (None, ng)
           else if nodes fs (snapshot_path cfg) = Absent then (None, ng)
           else if Format cfg = FormatJSON then loadFromJSON d fs ng (snapshot_path cfg)
           else if Format cfg = FormatBinary then loadFromBinary d fs ng (snapshot_path cfg)
           else (Some (ErrUnsupportedFormat (Format cfg)), ng)))"

text \<open>
  \<^verbatim>\<open>NewNGCache\<close> returns the cache alone: with persistence enabled it calls
  \<^verbatim>\<open>ng.loadFromPersist()\<close> as a statement, so the error that call returns is dropped.
  The background routine it starts only calls \<^verbatim>\<open>saveToPersist\<close>.
\<close>

definition NewNGCache ::
  "'e deps \<Rightarrow> filesys \<Rightarrow> int \<Rightarrow> PersistConfig option \<Rightarrow> 'e NGCache" where
  "NewNGCache d fs cacheSize config =
     (let ng = \<lparr>cache = cache_New d cacheSize, persistConfig = config, persistData = Map.empty\<rparr>
      in case config of
           None \<Rightarrow> ng
         | Some cfg \<Rightarrow> (if Enabled cfg then snd (loadFromPersist d fs ng) else ng))"

subsection \<open>An engine to run the facade on\<close>

text \<open>
  A small engine for concrete runs. It keeps the entries it accepts, refuses an entry
  whose key and value together are longer than \<open>max_entry\<close> and then leaves what it
  holds unchanged, and records the arguments of every \<^verbatim>\<open>Set\<close> call, most recent first.
  \<open>sim_evict\<close> drops a key, as an engine under memory pressure may.
\<close>

record sim_cache =
  held :: "(bytes \<times> bytes) list"
  max_entry :: nat
  set_calls :: "(bytes \<times> bytes \<times> int) list"

definition sim_New :: "int \<Rightarrow> sim_cache" where
  "sim_New cacheSize = \<lparr>held = [], max_entry = nat cacheSize, set_calls = []\<rparr>"

definition sim_Set :: "sim_cache \<Rightarrow> bytes \<Rightarrow> bytes \<Rightarrow> int \<Rightarrow> error option \<times> sim_cache" where
  "sim_Set c key val ttl =
     (let c1 = c\<lparr>set_calls := (key, val, ttl) # set_calls c\<rparr>
      in if max_entry c < length key + length val
         then (Some (EngineError ''entry too large''), c1)
         else (None, c1\<lparr>held := (key, val) # held c\<rparr>))"

definition sim_Get :: "sim_cache \<Rightarrow> bytes \<Rightarrow> (bytes \<times> error option) \<times> sim_cache" where
  "sim_Get c key =
     (case map_of (held c) key of
        Some val \<Rightarrow> ((val, None), c)
      | None \<Rightarrow> (([], Some (EngineError ''entry not found'')), c))"

definition sim_evict :: "sim_cache \<Rightarrow> bytes \<Rightarrow> sim_cache" where
  "sim_evict c key = c\<lparr>held := filter (\<lambda>kv. fst kv \<noteq> key) (held c)\<rparr>"

text \<open>A cache whose engine has lost a key.\<close>

definition evicted :: "sim_cache NGCache \<Rightarrow> string \<Rightarrow> sim_cache NGCache" where
  "evicted ng key = ng\<lparr>cache := sim_evict (cache ng) (bytes_of_string key)\<rparr>"

text \<open>A stand-in for the JSON library that knows the documents of a table of texts.\<close>

definition sim_deps :: "(string \<times> PersistData) list \<Rightarrow> sim_cache deps" where
  "sim_deps table =
     \<lparr>cache_New = sim_New, cache_Set = sim_Set, cache_Get = sim_Get,
      json_Encode = (\<lambda>data. case find (\<lambda>td. snd td = data) table of
                              Some td \<Rightarrow> bytes_of_string (fst td) | None \<Rightarrow> []),
      json_Decode = (\<lambda>content. case map_of table (string_of_bytes content) of
                                 Some data \<Rightarrow> Inr data
                               | None \<Rightarrow> Inl (IOError ''invalid character''))\<rparr>"

text \<open>An engine contract: an entry the engine accepted is found by the lookup that
  follows at once.\<close>

definition engine_keeps :: "'e deps \<Rightarrow> bool" where
  "engine_keeps d =
     (\<forall>c key val ttl c'. cache_Set d c key val ttl = (None, c') \<longrightarrow>
                          fst (cache_Get d c' key) = (val, None))"

subsection \<open>Byte slices as references\<close>

text \<open>
  A Go byte slice is a reference to an array. \<^verbatim>\<open>setWithPersist\<close> stores a copy of the
  caller's slice (\<^verbatim>\<open>make\<close> and \<^verbatim>\<open>copy\<close>), but \<^verbatim>\<open>SetPermanent\<close> stores the caller's slice
  itself, and \<^verbatim>\<open>getWithPersist\<close> and \<^verbatim>\<open>GetPermanent\<close> return the slice that is in the map.
  Where that sharing matters the cache is modelled with a heap: \<open>hrefs\<close> is \<^verbatim>\<open>persistData\<close>
  with the slice stored under each key, \<open>hmem\<close> gives the bytes of every slice, \<open>hnext\<close>
  counts the slices made so far outside the loader, and \<open>hheld\<close> are the slices the
  caller has a reference to. A slice that the loader made at construction is named
  by its key. The engine copies what it is given and returns fresh slices, so it keeps
  holding bytes.
\<close>

datatype addr = Loaded string | Made nat

record 'e NGHeap =
  hcache :: 'e
  hconfig :: "PersistConfig option"
  hrefs :: "string \<rightharpoonup> addr"
  hmem :: "addr \<Rightarrow> bytes"
  hnext :: nat
  hheld :: "addr set"

text \<open>The cache as the functions of the previous sections see it: every stored slice
  read through the heap.\<close>

definition h_abs :: "'e NGHeap \<Rightarrow> 'e NGCache" where
  "h_abs s = \<lparr>cache = hcache s, persistConfig = hconfig s,
              persistData = (\<lambda>k. map_option (hmem s) (hrefs s k))\<rparr>"

definition stored :: "'e NGHeap \<Rightarrow> string \<Rightarrow> bytes option" where
  "stored s k = map_option (hmem s) (hrefs s k)"

text \<open>\<^verbatim>\<open>make([]byte, len(v)); copy(..., v)\<close>: a new slice with the bytes \<open>v\<close>.\<close>

definition make_copy :: "'e NGHeap \<Rightarrow> bytes \<Rightarrow> addr \<times> 'e NGHeap" where
  "make_copy s v =
     (Made (hnext s), s\<lparr>hmem := (hmem s)(Made (hnext s) := v), hnext := Suc (hnext s)\<rparr>)"

text \<open>\<^verbatim>\<open>setWithPersist\<close> with the caller's slice \<open>val\<close>: the map gets a new slice.\<close>

definition h_setWithPersist ::
  "'e deps \<Rightarrow> 'e NGHeap \<Rightarrow> string \<Rightarrow> addr \<Rightarrow> int \<Rightarrow> error option \<times> 'e NGHeap" where
  "h_setWithPersist d s key val expireSeconds =
     (let s1 = (if expireSeconds \<le> 0
                then (let (a, s') = make_copy s (hmem s val)
                      in s'\<lparr>hrefs := (hrefs s')(key \<mapsto> a)\<rparr>)
                else s);
          (err, c) = cache_Set d (hcache s1) (bytes_of_string key) (hmem s val) expireSeconds
      in (err, s1\<lparr>hcache := c\<rparr>))"

text \<open>\<^verbatim>\<open>getWithPersist\<close>: an engine hit returns the engine's fresh slice, an engine miss
  returns the slice that is in the map.\<close>

definition h_getWithPersist ::
  "'e deps \<Rightarrow> 'e NGHeap \<Rightarrow> string \<Rightarrow> (addr option \<times> error option) \<times> 'e NGHeap" where
  "h_getWithPersist d s key =
     (case cache_Get d (hcache s) (bytes_of_string key) of
        ((val, None), c) \<Rightarrow>
          (let (a, s') = make_copy s val in ((Some a, None), s'\<lparr>hcache := c\<rparr>))
      | ((_, Some _), c) \<Rightarrow>
          (case hrefs s key of
             Some persistValue \<Rightarrow>
               (let (_, c') = cache_Set d c (bytes_of_string key) (hmem s persistValue) 0
                in ((Some persistValue, None), s\<lparr>hcache := c'\<rparr>))
           | None \<Rightarrow> ((None, Some ErrKeyNotFound), s\<lparr>hcache := c\<rparr>)))"

text \<open>\<^verbatim>\<open>SetPermanent\<close>: the map gets the caller's slice \<open>val\<close> itself.\<close>

definition h_SetPermanent ::
  "'e deps \<Rightarrow> 'e NGHeap \<Rightarrow> bytes \<Rightarrow> addr \<Rightarrow> error option \<times> 'e NGHeap" where
  "h_SetPermanent d s key val =
     (case cache_Set d (hcache s) key (hmem s val) 0 of
        (Some err, c) \<Rightarrow> (Some err, s\<lparr>hcache := c\<rparr>)
      | (None, c) \<Rightarrow>
          (if persistEnabled (h_abs s)
           then (None, s\<lparr>hcache := c, hrefs := (hrefs s)(string_of_bytes key \<mapsto> val)\<rparr>)
           else (None, s\<lparr>hcache := c\<rparr>)))"

definition h_GetPermanent ::
  "'e deps \<Rightarrow> 'e NGHeap \<Rightarrow> bytes \<Rightarrow> (addr option \<times> error option) \<times> 'e NGHeap" where
  "h_GetPermanent d s key =
     (case cache_Get d (hcache s) key of
        ((val, None), c) \<Rightarrow>
          (let (a, s') = make_copy s val in ((Some a, None), s'\<lparr>hcache := c\<rparr>))
      | ((_, Some err), c) \<Rightarrow>
          (if persistEnabled (h_abs s)
           then (case hrefs s (string_of_bytes key) of
                   Some val \<Rightarrow>
                     (let (_, c') = cache_Set d c key (hmem s val) 0
                      in ((Some val, None), s\<lparr>hcache := c'\<rparr>))
                 | None \<Rightarrow> ((None, Some err), s\<lparr>hcache := c\<rparr>))
           else ((None, Some err), s\<lparr>hcache := c\<rparr>)))"

text \<open>
  \<^verbatim>\<open>NewNGCache\<close>: the loader stores slices it has just made (\<^verbatim>\<open>make([]byte, valueLen)\<close>, or
  the slices the JSON decoder made), one under each key it leaves in the map, and the
  caller holds none of them.
\<close>

definition h_NewNGCache ::
  "'e deps \<Rightarrow> filesys \<Rightarrow> int \<Rightarrow> PersistConfig option \<Rightarrow> 'e NGHeap" where
  "h_NewNGCache d fs cacheSize config =
     (let ng = NewNGCache d fs cacheSize config
      in \<lparr>hcache = cache ng, hconfig = persistConfig ng,
          hrefs = (\<lambda>k. case persistData ng k of None \<Rightarrow> None | Some v \<Rightarrow> Some (Loaded k)),
          hmem = (\<lambda>a. case a of Loaded k \<Rightarrow> (case persistData ng k of None \<Rightarrow> [] | Some v \<Rightarrow> v)
                                | Made n \<Rightarrow> []),
          hnext = 0, hheld = {}\<rparr>)"

subsection \<open>Sequences of operations\<close>

text \<open>
  What a caller can do with a cache after its construction: make a slice, write a
  byte into a slice it holds, and call the package with slices it holds. \<open>HPut\<close> is
  \<^verbatim>\<open>setWithPersist\<close> (every typed setter ends in it), \<open>HFetch\<close> is \<^verbatim>\<open>getWithPersist\<close> (every
  typed getter starts with it) and the caller then holds the slice returned, \<open>HFlush\<close>
  is \<^verbatim>\<open>saveToPersist\<close> (a tick of the background routine, or \<^verbatim>\<open>Close\<close>) with the iteration
  order and the time it sees. An operation on a slice the caller does not hold cannot
  be written in Go and changes nothing here. A write outside the slice panics and
  changes nothing.
\<close>

datatype hop =
    HMake bytes
  | HWrite addr nat byte
  | HPut string addr int
  | HFetch string
  | HSetPermanent bytes addr
  | HGetPermanent bytes
  | HFlush "string list" "64 word"

definition hold :: "addr option \<Rightarrow> 'e NGHeap \<Rightarrow> 'e NGHeap" where
  "hold r s = (case r of None \<Rightarrow> s | Some a \<Rightarrow> s\<lparr>hheld := insert a (hheld s)\<rparr>)"

fun hstep :: "'e deps \<Rightarrow> 'e NGHeap \<times> filesys \<Rightarrow> hop \<Rightarrow> 'e NGHeap \<times> filesys" where
  "hstep d (s, fs) (HMake v) = (hold (Some (fst (make_copy s v))) (snd (make_copy s v)), fs)"
| "hstep d (s, fs) (HWrite a i b) =
     (if a \<in> hheld s then s\<lparr>hmem := (hmem s)(a := (hmem s a)[i := b])\<rparr> else s, fs)"
| "hstep d (s, fs) (HPut key val expireSeconds) =
     (if val \<in> hheld s then snd (h_setWithPersist d s key val expireSeconds) else s, fs)"
| "hstep d (s, fs) (HFetch key) =
     (hold (fst (fst (h_getWithPersist d s key))) (snd (h_getWithPersist d s key)), fs)"
| "hstep d (s, fs) (HSetPermanent key val) =
     (if val \<in> hheld s then snd (h_SetPermanent d s key val) else s, fs)"
| "hstep d (s, fs) (HGetPermanent key) =
     (hold (fst (fst (h_GetPermanent d s key))) (snd (h_GetPermanent d s key)), fs)"
| "hstep d (s, fs) (HFlush order now) = (s, snd (saveToPersist d fs (h_abs s) order now))"

definition hrun :: "'e deps \<Rightarrow> 'e NGHeap \<times> filesys \<Rightarrow> hop list \<Rightarrow> 'e NGHeap \<times> filesys" where
  "hrun d w ops = foldl (hstep d) w ops"

text \<open>The operations that assign to \<^verbatim>\<open>persistData[k]\<close>.\<close>

fun overwrites :: "hop \<Rightarrow> string \<Rightarrow> bool" where
  "overwrites (HPut key val expireSeconds) k = (key = k \<and> expireSeconds \<le> 0)"
| "overwrites (HSetPermanent key val) k = (string_of_bytes key = k)"
| "overwrites _ k = False"

text \<open>A caller's write into the slice \<open>a\<close>.\<close>

fun writes_into :: "hop \<Rightarrow> addr \<Rightarrow> bool" where
  "writes_into (HWrite a' i b) a = (a' = a)"
| "writes_into _ a = False"

text \<open>Every slice in the map or held by the caller has been made.\<close>

definition heap_ok :: "'e NGHeap \<Rightarrow> bool" where
  "heap_ok s =
     ((\<forall>k n. hrefs s k = Some (Made n) \<longrightarrow> n < hnext s) \<and>
      (\<forall>n. Made n \<in> hheld s \<longrightarrow> n < hnext s))"

subsection \<open>What the binary writer appends\<close>

text \<open>
  The bytes that the writes of \<^verbatim>\<open>saveToBinary\<close> append when none of them fails, read off
  the code: one loop round for an entry, and the whole body for a document.
\<close>

definition written_record :: "PersistEntry \<Rightarrow> bytes" where
  "written_record entry =
     PutUint32 (word_of_nat (length (Key entry))) @ bytes_of_string (Key entry) @
     PutUint32 (word_of_nat (length (Value entry))) @ Value entry"

definition written_snapshot :: "PersistData \<Rightarrow> bytes" where
  "written_snapshot data =
     PutUint32 BinaryMagic @ PutUint32 BinaryVersion @ PutUint64 (Timestamp data) @
     PutUint32 (word_of_nat (length (Entries data))) @
     concat (map written_record (Entries data))"

subsection \<open>The compact-binary layout, as the format description gives it\<close>

text \<open>
  Little-endian integers: the \<open>n\<close>-byte representation of \<open>x\<close> lists the base-256 digits
  of \<open>x\<close>, the least significant one first. A \<^verbatim>\<open>uint32\<close> field holds a number below
  \<open>2^32\<close>; a larger count or length has no field. A record is the length of the key, the
  key, the length of the value and the value; a document is the magic number, the
  version, the timestamp, the number of records and the records. A document with a
  count or a length that has no field has no layout.
\<close>

fun le_bytes :: "nat \<Rightarrow> nat \<Rightarrow> bytes" where
  "le_bytes 0 x = []"
| "le_bytes (Suc n) x = of_nat (x mod 256) # le_bytes n (x div 256)"

definition uint32_field :: "nat \<Rightarrow> bytes option" where
  "uint32_field n = (if n < 2 ^ 32 then Some (le_bytes 4 n) else None)"

definition record_layout :: "PersistEntry \<Rightarrow> bytes option" where
  "record_layout entry =
     (case (uint32_field (length (Key entry)), uint32_field (length (Value entry))) of
        (Some keyLength, Some valueLength) \<Rightarrow>
          Some (keyLength @ bytes_of_string (Key entry) @ valueLength @ Value entry)
      | _ \<Rightarrow> None)"

fun records_layout :: "PersistEntry list \<Rightarrow> bytes option" where
  "records_layout [] = Some []"
| "records_layout (entry # rest) =
     (case (record_layout entry, records_layout rest) of
        (Some r, Some rs) \<Rightarrow> Some (r @ rs)
      | _ \<Rightarrow> None)"

definition binary_layout :: "PersistData \<Rightarrow> bytes option" where
  "binary_layout data =
     (case (uint32_field (length (Entries data)), records_layout (Entries data)) of
        (Some entryCount, Some records) \<Rightarrow>
          Some (le_bytes 4 0x4E474341 @ le_bytes 4 1 @ le_bytes 8 (unat (Timestamp data)) @
                entryCount @ records)
      | _ \<Rightarrow> None)"

subsection \<open>Concrete inputs\<close>

text \<open>A file system with no files where nothing fails, and the same with one file.\<close>

definition fs_empty :: filesys where
  "fs_empty = \<lparr>nodes = (\<lambda>_. Absent), mkdir_fails = (\<lambda>_. False), create_fails = (\<lambda>_. False),
               room = None\<rparr>"

definition fs_with :: "string \<Rightarrow> bytes \<Rightarrow> filesys" where
  "fs_with filePath content = fs_empty\<lparr>nodes := (nodes fs_empty)(filePath := File content)\<rparr>"

text \<open>The configuration of \<^verbatim>\<open>persistence_test.go\<close>, and its JSON twin.\<close>

definition cfg_binary :: PersistConfig where
  "cfg_binary = \<lparr>Enabled = True, FilePath = [], FileName = ''test.cat'', Format = FormatBinary,
                 Interval = 5\<rparr>"

definition cfg_json :: PersistConfig where
  "cfg_json = \<lparr>Enabled = True, FilePath = [], FileName = ''test.json'', Format = FormatJSON,
               Interval = 5\<rparr>"

text \<open>A cache around the small engine, with a given engine limit, configuration and
  permanent map.\<close>

definition sim_ng :: "nat \<Rightarrow> PersistConfig option \<Rightarrow> (string \<rightharpoonup> bytes) \<Rightarrow> sim_cache NGCache" where
  "sim_ng limit config m =
     \<lparr>cache = \<lparr>held = [], max_entry = limit, set_calls = []\<rparr>, persistConfig = config,
      persistData = m\<rparr>"

text \<open>A value of \<open>2^32\<close> bytes, whose length does not fit a \<^verbatim>\<open>uint32\<close>.\<close>

definition huge_value :: bytes where
  "huge_value = replicate (2 ^ 32) 0"

text \<open>A document whose one entry has that value.\<close>

definition huge_doc :: PersistData where
  "huge_doc = \<lparr>Version = 1, Timestamp = 0, Entries = [\<lparr>Key = ''k'', Value = huge_value\<rparr>]\<rparr>"

text \<open>A structured-text snapshot with version 2 and one entry, and the document the
  JSON library decodes it to (the value is the base64 text of the byte \<open>0x78\<close>).\<close>

definition json_v2_text :: string where
  \<open>json_v2_text = ''{"version":2,"timestamp":0,"entries":[{"key":"a","value":"eA=="}]}''\<close>

definition json_v2_doc :: PersistData where
  "json_v2_doc = \<lparr>Version = 2, Timestamp = 0, Entries = [\<lparr>Key = ''a'', Value = [0x78]\<rparr>]\<rparr>"



text \<open>A heap-modelled cache whose engine has lost a key.\<close>

definition h_evicted :: "sim_cache NGHeap \<Rightarrow> string \<Rightarrow> sim_cache NGHeap" where
  "h_evicted s key = s\<lparr>hcache := sim_evict (hcache s) (bytes_of_string key)\<rparr>"

section \<open>Properties\<close>

subsection \<open>Bytes and little-endian integers\<close>

lemma unat_of_char: "unat (of_char c :: 8 word) = of_char c"
proof -
  have "(of_char c :: 8 word) = of_nat (of_char c)"
    by (simp add: of_nat_of_char)
  then have "unat (of_char c :: 8 word) = (of_char c :: nat) mod 256"
    by (simp add: unat_of_nat)
  then show ?thesis by simp
qed

lemma string_of_bytes_of_string [simp]: "string_of_bytes (bytes_of_string s) = s"
  by (induction s) (simp_all add: string_of_bytes_def bytes_of_string_def unat_of_char)

lemma length_bytes_of_string [simp]: "length (bytes_of_string s) = length s"
  by (simp add: bytes_of_string_def)

lemma Uint32_PutUint32: "Uint32 (PutUint32 v) = v"
proof (rule bit_word_eqI)
  fix n assume "n < LENGTH(32)"
  then have n: "n < 32" by simp
  consider "n < 8" | "8 \<le> n" "n < 16" | "16 \<le> n" "n < 24" | "24 \<le> n" "n < 32"
    using n by linarith
  then show "bit (Uint32 (PutUint32 v)) n = bit v n"
    by cases (auto simp add: Uint32_def PutUint32_def bit_simps)
qed


lemma length_PutUint32 [simp]: "length (PutUint32 v) = 4"
  by (simp add: PutUint32_def)

lemma length_PutUint64 [simp]: "length (PutUint64 v) = 8"
  by (simp add: PutUint64_def)

lemma le_bytes_4:
  "le_bytes 4 x = [of_nat (x mod 256), of_nat (x div 256 mod 256),
     of_nat (x div 256 div 256 mod 256), of_nat (x div 256 div 256 div 256 mod 256)]"
proof -
  have e: "(4::nat) = Suc (Suc (Suc (Suc 0)))" by simp
  show ?thesis unfolding e by simp
qed

lemma le_bytes_8:
  "le_bytes 8 x = [of_nat (x mod 256), of_nat (x div 256 mod 256),
     of_nat (x div 256 div 256 mod 256), of_nat (x div 256 div 256 div 256 mod 256),
     of_nat (x div 256 div 256 div 256 div 256 mod 256),
     of_nat (x div 256 div 256 div 256 div 256 div 256 mod 256),
     of_nat (x div 256 div 256 div 256 div 256 div 256 div 256 mod 256),
     of_nat (x div 256 div 256 div 256 div 256 div 256 div 256 div 256 mod 256)]"
proof -
  have e: "(8::nat) = Suc (Suc (Suc (Suc (Suc (Suc (Suc (Suc 0)))))))" by simp
  show ?thesis unfolding e by simp
qed

lemma PutUint32_le_bytes: "PutUint32 v = le_bytes 4 (unat v)"
  by (simp add: PutUint32_def le_bytes_4 word_eq_iff_unsigned[where ?'a=nat] unat_drop_bit_eq
      drop_bit_eq_div take_bit_eq_mod unat_of_nat unsigned_ucast_eq unat_div
      div_mult2_eq[symmetric])

lemma PutUint64_le_bytes: "PutUint64 v = le_bytes 8 (unat v)"
  by (simp add: PutUint64_def le_bytes_8 word_eq_iff_unsigned[where ?'a=nat] unat_drop_bit_eq
      drop_bit_eq_div take_bit_eq_mod unat_of_nat unsigned_ucast_eq unat_div
      div_mult2_eq[symmetric])

lemma PutUint32_length_field: "PutUint32 (word_of_nat n) = le_bytes 4 (n mod 2 ^ 32)"
  by (simp add: PutUint32_le_bytes unat_of_nat)

lemma unat_length_field: "n < 2 ^ 32 \<Longrightarrow> unat (word_of_nat n :: 32 word) = n"
  by (simp add: unat_of_nat)

subsection \<open>Reading back what was written\<close>




subsection \<open>The writer\<close>

lemma file_Write_ok: "file_Write f bs = (None, f') \<Longrightarrow> written f' = written f @ bs"
  by (auto simp: file_Write_def split: option.splits if_splits)

lemma file_Write_unbounded:
  "wroom f = None \<Longrightarrow> file_Write f bs = (None, f\<lparr>written := written f @ bs\<rparr>)"
  by (simp add: file_Write_def)

lemma write_entries_ok:
  "write_entries f es = (None, f') \<Longrightarrow> written f' = written f @ concat (map written_record es)"
proof (induction es arbitrary: f)
  case Nil
  then show ?case by simp
next
  case (Cons entry rest)
  from Cons.prems obtain f1 f2 f3 f4 where
    w1: "file_Write f (PutUint32 (word_of_nat (length (Key entry)))) = (None, f1)" and
    w2: "file_Write f1 (bytes_of_string (Key entry)) = (None, f2)" and
    w3: "file_Write f2 (PutUint32 (word_of_nat (length (Value entry)))) = (None, f3)" and
    w4: "file_Write f3 (Value entry) = (None, f4)" and
    rest: "write_entries f4 rest = (None, f')"
    by (auto simp: binary_Write32_def split: prod.splits option.splits)
  have "written f4 = written f @ written_record entry"
    using file_Write_ok [OF w1] file_Write_ok [OF w2] file_Write_ok [OF w3] file_Write_ok [OF w4]
    by (simp add: written_record_def)
  with Cons.IH [OF rest] show ?case by simp
qed

lemma write_entries_unbounded:
  "wroom f = None \<Longrightarrow>
   write_entries f es = (None, f\<lparr>written := written f @ concat (map written_record es)\<rparr>)"
proof (induction es arbitrary: f)
  case Nil
  then show ?case by simp
next
  case (Cons entry rest)
  let ?f4 = "f\<lparr>written := written f @ written_record entry\<rparr>"
  have step: "write_entries f (entry # rest) = write_entries ?f4 rest"
    using Cons.prems
    by (simp add: binary_Write32_def file_Write_unbounded written_record_def)
  have "wroom ?f4 = None" using Cons.prems by simp
  from Cons.IH [OF this] step show ?case by simp
qed

lemma write_binary_ok:
  assumes "write_binary f data = (None, f')"
  shows "written f' = written f @ written_snapshot data"
proof -
  from assms obtain f1 f2 f3 f4 where
    w1: "file_Write f (PutUint32 BinaryMagic) = (None, f1)" and
    w2: "file_Write f1 (PutUint32 BinaryVersion) = (None, f2)" and
    w3: "file_Write f2 (PutUint64 (Timestamp data)) = (None, f3)" and
    w4: "file_Write f3 (PutUint32 (word_of_nat (length (Entries data)))) = (None, f4)" and
    rest: "write_entries f4 (Entries data) = (None, f')"
    by (auto simp: write_binary_def binary_Write32_def binary_Write64_def
        split: prod.splits option.splits)
  have "written f4 = written f @ PutUint32 BinaryMagic @ PutUint32 BinaryVersion @
          PutUint64 (Timestamp data) @ PutUint32 (word_of_nat (length (Entries data)))"
    using file_Write_ok [OF w1] file_Write_ok [OF w2] file_Write_ok [OF w3] file_Write_ok [OF w4]
    by simp
  with write_entries_ok [OF rest] show ?thesis
    by (simp add: written_snapshot_def)
qed

lemma write_binary_unbounded:
  assumes "wroom f = None"
  shows "write_binary f data = (None, f\<lparr>written := written f @ written_snapshot data\<rparr>)"
proof -
  let ?f4 = "f\<lparr>written := written f @ PutUint32 BinaryMagic @ PutUint32 BinaryVersion @
          PutUint64 (Timestamp data) @ PutUint32 (word_of_nat (length (Entries data)))\<rparr>"
  have "write_binary f data = write_entries ?f4 (Entries data)"
    using assms
    by (simp add: write_binary_def binary_Write32_def binary_Write64_def file_Write_unbounded)
  moreover have "wroom ?f4 = None" using assms by simp
  ultimately show ?thesis
    using write_entries_unbounded [of ?f4 "Entries data"] by (simp add: written_snapshot_def)
qed

lemma saveToBinary_ok:
  "saveToBinary fs filePath data = (None, fs') \<Longrightarrow>
   nodes fs' filePath = File (written_snapshot data)"
  using write_binary_ok [of "\<lparr>written = [], wroom = room fs\<rparr>" data]
  by (auto simp: saveToBinary_def close_file_def split: if_splits prod.splits)

lemma saveToBinary_unbounded:
  "\<not> create_fails fs filePath \<Longrightarrow> room fs = None \<Longrightarrow>
   saveToBinary fs filePath data =
     (None, fs\<lparr>nodes := (nodes fs)(filePath := File (written_snapshot data))\<rparr>)"
  using write_binary_unbounded [of "\<lparr>written = [], wroom = room fs\<rparr>" data]
  by (simp add: saveToBinary_def close_file_def)

subsection \<open>The reader\<close>



lemma persistData_store_loaded:
  "persistData (store_loaded d ng keyBytes valueBytes) =
     (persistData ng)(string_of_bytes keyBytes \<mapsto> valueBytes)"
  by (simp add: store_loaded_def split: prod.splits)

lemma persistConfig_store_loaded [simp]:
  "persistConfig (store_loaded d ng keyBytes valueBytes) = persistConfig ng"
  by (simp add: store_loaded_def split: prod.splits)


subsection \<open>The writer's bytes and the layout of the format\<close>

lemma PutUint32_consts:
  "PutUint32 BinaryMagic = le_bytes 4 0x4E474341"
  "PutUint32 BinaryVersion = le_bytes 4 1"
  by (simp_all add: PutUint32_def le_bytes_4 BinaryMagic_def BinaryVersion_def)

lemma uint32_field_fits:
  "n < 2 ^ 32 \<Longrightarrow> uint32_field n = Some (PutUint32 (word_of_nat n))"
  by (simp add: uint32_field_def PutUint32_length_field)

lemma record_layout_fits:
  "length (Key entry) < 2 ^ 32 \<Longrightarrow> length (Value entry) < 2 ^ 32 \<Longrightarrow>
   record_layout entry = Some (written_record entry)"
  by (simp add: record_layout_def written_record_def uint32_field_fits)

lemma records_layout_fit:
  "\<forall>entry\<in>set es. length (Key entry) < 2 ^ 32 \<and> length (Value entry) < 2 ^ 32 \<Longrightarrow>
   records_layout es = Some (concat (map written_record es))"
  by (induction es) (simp_all add: record_layout_fits)

lemma binary_layout_fits:
  assumes "length (Entries data) < 2 ^ 32"
    and "\<forall>entry\<in>set (Entries data). length (Key entry) < 2 ^ 32 \<and> length (Value entry) < 2 ^ 32"
  shows "binary_layout data = Some (written_snapshot data)"
  using assms
  by (simp add: binary_layout_def written_snapshot_def uint32_field_fits records_layout_fit
      PutUint32_consts PutUint64_le_bytes)

lemma uint32_field_none: "\<not> n < 2 ^ 32 \<Longrightarrow> uint32_field n = None"
  by (simp add: uint32_field_def)

subsection \<open>The small engine\<close>

lemma sim_engine_keeps: "engine_keeps (sim_deps table)"
  by (auto simp: engine_keeps_def sim_deps_def sim_Set_def sim_Get_def Let_def split: if_splits)

lemmas sim_defs =
  sim_deps_def sim_ng_def sim_New_def sim_Set_def sim_Get_def sim_evict_def bytes_of_string_def

subsection \<open>Put and Fetch\<close>

text \<open>
  Claim C1, as amended. A Put with \<open>expireSeconds \<le> 0\<close> stores the value in the permanent
  map whatever the engine answers, hands the engine the key, the value and the caller's
  \<open>expireSeconds\<close> itself, and returns the engine's answer. The Fetch that follows returns
  the value with no error provided the engine's lookup of the key then either fails or
  yields that value.
\<close>

theorem put_then_fetch:
  assumes "expireSeconds \<le> 0"
    and "ng1 = snd (setWithPersist d ng K V expireSeconds)"
    and "snd (fst (cache_Get d (cache ng1) (bytes_of_string K))) = None \<longrightarrow>
         fst (fst (cache_Get d (cache ng1) (bytes_of_string K))) = V"
  shows "persistData ng1 K = Some V
       \<and> (fst (setWithPersist d ng K V expireSeconds), cache ng1) =
           cache_Set d (cache ng) (bytes_of_string K) V expireSeconds
       \<and> fst (getWithPersist d ng1 K) = (V, None)"
  using assms
  by (auto simp: setWithPersist_def getWithPersist_def Let_def split: prod.splits option.splits)

theorem put_then_fetch_witness:
  "(0::int) \<le> 0
   \<and> persistData (snd (setWithPersist (sim_deps []) (sim_ng 100 None Map.empty) ''k'' [7] 0)) ''k''
       = Some [7]
   \<and> fst (getWithPersist (sim_deps [])
        (snd (setWithPersist (sim_deps []) (sim_ng 100 None Map.empty) ''k'' [7] 0)) ''k'')
       = ([7], None)"
  using put_then_fetch [of 0 "snd (setWithPersist (sim_deps []) (sim_ng 100 None Map.empty) ''k'' [7] 0)"
      "sim_deps []" "sim_ng 100 None Map.empty" "''k''" "[7]"]
  by (simp add: setWithPersist_def sim_defs)

text \<open>
  The claim as stated fails twice. With \<open>expireSeconds = -1\<close> the engine is called with
  TTL \<open>-1\<close>, not \<open>0\<close>. And when the engine holds an older value and refuses the new one,
  the Fetch after the Put returns the older value, although the permanent map holds the
  new one.
\<close>

theorem put_then_fetch_counterexample:
  "set_calls (cache (snd (setWithPersist (sim_deps []) (sim_ng 100 None Map.empty) ''k'' [7] (- 1))))
     = [(bytes_of_string ''k'', [7], - 1)]
   \<and> fst (setWithPersist (sim_deps [])
        (snd (setWithPersist (sim_deps []) (sim_ng 3 None Map.empty) ''k'' [1] 0)) ''k'' [9, 9, 9] 0)
       = Some (EngineError ''entry too large'')
   \<and> persistData (snd (setWithPersist (sim_deps [])
        (snd (setWithPersist (sim_deps []) (sim_ng 3 None Map.empty) ''k'' [1] 0)) ''k'' [9, 9, 9] 0)) ''k''
       = Some [9, 9, 9]
   \<and> fst (getWithPersist (sim_deps []) (snd (setWithPersist (sim_deps [])
        (snd (setWithPersist (sim_deps []) (sim_ng 3 None Map.empty) ''k'' [1] 0)) ''k'' [9, 9, 9] 0)) ''k'')
       = ([1], None)"
  by (simp add: setWithPersist_def getWithPersist_def sim_defs)

subsection \<open>Read repair\<close>

text \<open>
  Claim C2, as amended. When the key is in the permanent map and the engine's lookup
  fails, Fetch returns the stored value with no error and leaves the engine in the state
  that \<^verbatim>\<open>Set(key, value, 0)\<close> produced, whatever that call answered. If the engine accepted
  the entry, and keeps what it accepts, the engine lookup that follows finds the value.
\<close>

theorem fetch_read_repair:
  assumes "persistData ng K = Some V"
    and "snd (fst (cache_Get d (cache ng) (bytes_of_string K))) \<noteq> None"
  shows "fst (getWithPersist d ng K) = (V, None)
       \<and> cache (snd (getWithPersist d ng K)) =
           snd (cache_Set d (snd (cache_Get d (cache ng) (bytes_of_string K))) (bytes_of_string K) V 0)
       \<and> persistData (snd (getWithPersist d ng K)) = persistData ng
       \<and> (engine_keeps d \<and>
          fst (cache_Set d (snd (cache_Get d (cache ng) (bytes_of_string K))) (bytes_of_string K) V 0) = None
          \<longrightarrow> fst (cache_Get d (cache (snd (getWithPersist d ng K))) (bytes_of_string K)) = (V, None))"
  using assms
  by (auto simp: getWithPersist_def engine_keeps_def split: prod.splits option.splits)

text \<open>
  A Put, the loss of the key in the engine, and the Fetch after it: the value comes
  back, and the engine holds the key again.
\<close>

theorem fetch_read_repair_witness:
  "persistData (evicted (snd (setWithPersist (sim_deps []) (sim_ng 100 None Map.empty) ''k'' [7] 0)) ''k'')
     ''k'' = Some [7]
   \<and> fst (cache_Get (sim_deps [])
        (cache (evicted (snd (setWithPersist (sim_deps []) (sim_ng 100 None Map.empty) ''k'' [7] 0)) ''k''))
        (bytes_of_string ''k'')) = ([], Some (EngineError ''entry not found''))
   \<and> engine_keeps (sim_deps [])
   \<and> fst (getWithPersist (sim_deps [])
        (evicted (snd (setWithPersist (sim_deps []) (sim_ng 100 None Map.empty) ''k'' [7] 0)) ''k'') ''k'')
       = ([7], None)
   \<and> fst (cache_Get (sim_deps [])
        (cache (snd (getWithPersist (sim_deps [])
           (evicted (snd (setWithPersist (sim_deps []) (sim_ng 100 None Map.empty) ''k'' [7] 0)) ''k'')
           ''k'')))
        (bytes_of_string ''k'')) = ([7], None)"
proof -
  let ?lost = "evicted (snd (setWithPersist (sim_deps []) (sim_ng 100 None Map.empty) ''k'' [7] 0)) ''k''"
  have 1: "persistData ?lost ''k'' = Some [7]"
    by (simp add: evicted_def setWithPersist_def sim_defs)
  have miss: "fst (cache_Get (sim_deps []) (cache ?lost) (bytes_of_string ''k''))
      = ([], Some (EngineError ''entry not found''))"
    by (simp add: evicted_def setWithPersist_def sim_defs)
  then have 2: "snd (fst (cache_Get (sim_deps []) (cache ?lost) (bytes_of_string ''k''))) \<noteq> None"
    by simp
  have 3: "fst (cache_Set (sim_deps [])
             (snd (cache_Get (sim_deps []) (cache ?lost) (bytes_of_string ''k'')))
             (bytes_of_string ''k'') [7] 0) = None"
    by (simp add: evicted_def setWithPersist_def sim_defs)
  show ?thesis
    using fetch_read_repair [OF 1 2] 1 miss 3 sim_engine_keeps [of "[]"] by blast
qed

text \<open>
  The claim as stated fails for an entry the engine refuses: after a Put of a value
  above the engine's limit the permanent map holds the entry, Fetch returns it, and the
  engine lookup after that Fetch still fails.
\<close>

theorem fetch_read_repair_counterexample:
  "persistData (snd (setWithPersist (sim_deps []) (sim_ng 3 None Map.empty) ''k'' [9, 9, 9] 0)) ''k''
     = Some [9, 9, 9]
   \<and> fst (getWithPersist (sim_deps [])
        (snd (setWithPersist (sim_deps []) (sim_ng 3 None Map.empty) ''k'' [9, 9, 9] 0)) ''k'')
       = ([9, 9, 9], None)
   \<and> fst (cache_Get (sim_deps [])
        (cache (snd (getWithPersist (sim_deps [])
           (snd (setWithPersist (sim_deps []) (sim_ng 3 None Map.empty) ''k'' [9, 9, 9] 0)) ''k'')))
        (bytes_of_string ''k''))
       = ([], Some (EngineError ''entry not found''))"
  by (simp add: setWithPersist_def getWithPersist_def sim_defs)

subsection \<open>Typed getters\<close>

text \<open>
  Claim C8. When the bytes stored under a key (what \<^verbatim>\<open>getWithPersist\<close> finds) do not have
  the width of the requested scalar, the getter returns the zero value of its type
  together with \<open>ErrInvalidType\<close>: width 4 for \<^verbatim>\<open>GetInt32\<close> and \<^verbatim>\<open>GetFloat32\<close>, 8 for
  \<^verbatim>\<open>GetInt64\<close> and \<^verbatim>\<open>GetFloat64\<close>, 1 for \<^verbatim>\<open>GetBool\<close>.
\<close>

theorem typed_getters_reject_wrong_width:
  assumes "fst (getWithPersist d ng key) = (data, None)"
  shows "(length data \<noteq> 4 \<longrightarrow> fst (GetInt32 d ng key) = (0, Some ErrInvalidType)
                             \<and> fst (GetFloat32 d ng key) = (0, Some ErrInvalidType))
       \<and> (length data \<noteq> 8 \<longrightarrow> fst (GetInt64 d ng key) = (0, Some ErrInvalidType)
                             \<and> fst (GetFloat64 d ng key) = (0, Some ErrInvalidType))
       \<and> (length data \<noteq> 1 \<longrightarrow> fst (GetBool d ng key) = (False, Some ErrInvalidType))"
  using assms
  by (auto simp: GetInt32_def GetInt64_def GetFloat32_def GetFloat64_def GetBool_def
      split: prod.splits option.splits)

theorem typed_getters_reject_wrong_width_witness:
  "fst (getWithPersist (sim_deps []) (sim_ng 100 None [''n'' \<mapsto> [1, 2]]) ''n'') = ([1, 2], None)
   \<and> length [1, 2 :: byte] \<noteq> 4 \<and> length [1, 2 :: byte] \<noteq> 8 \<and> length [1, 2 :: byte] \<noteq> 1
   \<and> fst (GetInt32 (sim_deps []) (sim_ng 100 None [''n'' \<mapsto> [1, 2]]) ''n'') = (0, Some ErrInvalidType)
   \<and> fst (GetFloat32 (sim_deps []) (sim_ng 100 None [''n'' \<mapsto> [1, 2]]) ''n'') = (0, Some ErrInvalidType)
   \<and> fst (GetInt64 (sim_deps []) (sim_ng 100 None [''n'' \<mapsto> [1, 2]]) ''n'') = (0, Some ErrInvalidType)
   \<and> fst (GetFloat64 (sim_deps []) (sim_ng 100 None [''n'' \<mapsto> [1, 2]]) ''n'') = (0, Some ErrInvalidType)
   \<and> fst (GetBool (sim_deps []) (sim_ng 100 None [''n'' \<mapsto> [1, 2]]) ''n'') = (False, Some ErrInvalidType)"
proof -
  have 1: "fst (getWithPersist (sim_deps []) (sim_ng 100 None [''n'' \<mapsto> [1, 2]]) ''n'') = ([1, 2], None)"
    by (simp add: getWithPersist_def sim_defs)
  show ?thesis
    using typed_getters_reject_wrong_width [OF 1] 1 by simp
qed

subsection \<open>SetPermanent and GetPermanent\<close>

text \<open>
  Claim C10. \<^verbatim>\<open>SetPermanent\<close> always writes the engine with TTL 0. It changes the permanent
  map only when persistence is enabled (a configuration that is present and enabled)
  and the engine accepted the entry; otherwise the map stays as it was, and an engine
  error is returned as it is. With persistence disabled \<^verbatim>\<open>GetPermanent\<close> answers an engine
  miss with the engine's own error, whatever the permanent map holds. A Put with
  \<open>expireSeconds \<le> 0\<close> records the entry in the permanent map whatever the configuration
  and the engine's answer.
\<close>

theorem SetPermanent_needs_persistence:
  "(persistEnabled ng \<longleftrightarrow> (\<exists>c. persistConfig ng = Some c \<and> Enabled c))
   \<and> cache (snd (SetPermanent d ng key val)) = snd (cache_Set d (cache ng) key val 0)
   \<and> fst (SetPermanent d ng key val) = fst (cache_Set d (cache ng) key val 0)
   \<and> (\<not> persistEnabled ng \<longrightarrow> persistData (snd (SetPermanent d ng key val)) = persistData ng)
   \<and> (fst (cache_Set d (cache ng) key val 0) \<noteq> None \<longrightarrow>
        persistData (snd (SetPermanent d ng key val)) = persistData ng)
   \<and> (persistEnabled ng \<and> fst (cache_Set d (cache ng) key val 0) = None \<longrightarrow>
        persistData (snd (SetPermanent d ng key val)) = (persistData ng)(string_of_bytes key \<mapsto> val))
   \<and> (\<not> persistEnabled ng \<and> snd (fst (cache_Get d (cache ng) key)) \<noteq> None \<longrightarrow>
        fst (GetPermanent d ng key) = ([], snd (fst (cache_Get d (cache ng) key))))
   \<and> (expireSeconds \<le> 0 \<longrightarrow>
        persistData (snd (setWithPersist d ng k val expireSeconds)) = (persistData ng)(k \<mapsto> val))"
proof -
  have "persistEnabled ng \<longleftrightarrow> (\<exists>c. persistConfig ng = Some c \<and> Enabled c)"
    by (simp add: persistEnabled_def split: option.splits)
  moreover have "cache (snd (SetPermanent d ng key val)) = snd (cache_Set d (cache ng) key val 0)"
    and "fst (SetPermanent d ng key val) = fst (cache_Set d (cache ng) key val 0)"
    by (simp_all add: SetPermanent_def split: prod.splits option.splits)
  moreover have "\<not> persistEnabled ng \<longrightarrow> persistData (snd (SetPermanent d ng key val)) = persistData ng"
    by (simp add: SetPermanent_def split: prod.splits option.splits)
  moreover have "fst (cache_Set d (cache ng) key val 0) \<noteq> None \<longrightarrow>
        persistData (snd (SetPermanent d ng key val)) = persistData ng"
    by (auto simp: SetPermanent_def split: prod.splits option.splits)
  moreover have "persistEnabled ng \<and> fst (cache_Set d (cache ng) key val 0) = None \<longrightarrow>
        persistData (snd (SetPermanent d ng key val)) = (persistData ng)(string_of_bytes key \<mapsto> val)"
    by (auto simp: SetPermanent_def split: prod.splits option.splits)
  moreover have "\<not> persistEnabled ng \<and> snd (fst (cache_Get d (cache ng) key)) \<noteq> None \<longrightarrow>
        fst (GetPermanent d ng key) = ([], snd (fst (cache_Get d (cache ng) key)))"
    by (auto simp: GetPermanent_def split: prod.splits option.splits)
  moreover have "expireSeconds \<le> 0 \<longrightarrow>
        persistData (snd (setWithPersist d ng k val expireSeconds)) = (persistData ng)(k \<mapsto> val)"
    by (simp add: setWithPersist_def Let_def split: prod.splits)
  ultimately show ?thesis by blast
qed

text \<open>
  A run with persistence disabled: \<^verbatim>\<open>SetPermanent\<close> leaves the permanent map empty, and
  once the engine has lost the key \<^verbatim>\<open>GetPermanent\<close> fails with the engine's error; the same
  key written by a Put with \<open>expireSeconds = 0\<close> is in the map. With persistence
  enabled \<^verbatim>\<open>SetPermanent\<close> records the entry, unless the engine refuses it.
\<close>

theorem SetPermanent_needs_persistence_witness:
  "\<not> persistEnabled (sim_ng 100 None Map.empty)
   \<and> persistData (snd (SetPermanent (sim_deps []) (sim_ng 100 None Map.empty) (bytes_of_string ''k'') [7])) = Map.empty
   \<and> held (cache (snd (SetPermanent (sim_deps []) (sim_ng 100 None Map.empty) (bytes_of_string ''k'') [7]))) = [((bytes_of_string ''k''), [7])]
   \<and> snd (fst (cache_Get (sim_deps []) (cache (sim_ng 100 None Map.empty)) (bytes_of_string ''k''))) \<noteq> None
   \<and> fst (GetPermanent (sim_deps []) (sim_ng 100 None Map.empty) (bytes_of_string ''k''))
       = ([], Some (EngineError ''entry not found''))
   \<and> fst (GetPermanent (sim_deps [])
        (evicted (snd (SetPermanent (sim_deps []) (sim_ng 100 None Map.empty) (bytes_of_string ''k'') [7]))
           ''k'')
        (bytes_of_string ''k'')) = ([], Some (EngineError ''entry not found''))
   \<and> (0::int) \<le> 0
   \<and> persistData (snd (setWithPersist (sim_deps []) (sim_ng 100 None Map.empty) ''k'' [7] 0)) ''k''
       = Some [7]
   \<and> persistEnabled (sim_ng 100 (Some cfg_binary) Map.empty)
   \<and> fst (cache_Set (sim_deps []) (cache (sim_ng 100 (Some cfg_binary) Map.empty)) (bytes_of_string ''k'') [7] 0) = None
   \<and> persistData (snd (SetPermanent (sim_deps []) (sim_ng 100 (Some cfg_binary) Map.empty) (bytes_of_string ''k'') [7])) ''k''
       = Some [7]
   \<and> fst (cache_Set (sim_deps []) (cache (sim_ng 1 (Some cfg_binary) Map.empty)) (bytes_of_string ''k'') [7] 0) \<noteq> None
   \<and> persistData (snd (SetPermanent (sim_deps []) (sim_ng 1 (Some cfg_binary) Map.empty) (bytes_of_string ''k'') [7])) ''k''
       = None"
proof -
  have off: "\<not> persistEnabled (sim_ng 100 None Map.empty)"
    and on: "persistEnabled (sim_ng 100 (Some cfg_binary) Map.empty)"
    and miss: "snd (fst (cache_Get (sim_deps []) (cache (sim_ng 100 None Map.empty)) (bytes_of_string ''k''))) = 
      Some (EngineError ''entry not found'')"
    and ok: "fst (cache_Set (sim_deps []) (cache (sim_ng 100 (Some cfg_binary) Map.empty)) (bytes_of_string ''k'') [7] 0) = None"
    and refused: "fst (cache_Set (sim_deps []) (cache (sim_ng 1 (Some cfg_binary) Map.empty)) (bytes_of_string ''k'') [7] 0) \<noteq> None"
    and store: "persistData (sim_ng 100 None Map.empty) = Map.empty"
      "persistData (sim_ng 100 (Some cfg_binary) Map.empty) = Map.empty"
      "persistData (sim_ng 1 (Some cfg_binary) Map.empty) = Map.empty"
    and engine: "held (snd (cache_Set (sim_deps []) (cache (sim_ng 100 None Map.empty)) (bytes_of_string ''k'') [7] 0))
        = [((bytes_of_string ''k''), [7])]"
    by (simp_all add: persistEnabled_def sim_deps_def sim_ng_def sim_Set_def sim_Get_def
        cfg_binary_def)
  have lost: "fst (GetPermanent (sim_deps [])
        (evicted (snd (SetPermanent (sim_deps []) (sim_ng 100 None Map.empty) (bytes_of_string ''k'') [7]))
           ''k'')
        (bytes_of_string ''k'')) = ([], Some (EngineError ''entry not found''))"
    by (simp add: GetPermanent_def SetPermanent_def evicted_def persistEnabled_def sim_defs)
  show ?thesis
    using SetPermanent_needs_persistence [of "sim_ng 100 None Map.empty" "sim_deps []" "(bytes_of_string ''k'')" "[7]" 0 "''k''"]
      SetPermanent_needs_persistence [of "sim_ng 100 (Some cfg_binary) Map.empty" "sim_deps []" "(bytes_of_string ''k'')" "[7]" 0 "''k''"]
      SetPermanent_needs_persistence [of "sim_ng 1 (Some cfg_binary) Map.empty" "sim_deps []" "(bytes_of_string ''k'')" "[7]" 0 "''k''"]
      off on miss ok refused store engine lost
    by simp
qed

subsection \<open>Magic and version\<close>

text \<open>
  Claim C7. The binary decoder checks the magic number first: a file whose first four
  bytes are not \<open>0x4E474341\<close> is rejected with \<open>ErrBadMagic\<close> whatever follows them, and
  nothing is loaded. Only when the magic number is right is the version read, and a
  version other than 1 is rejected with \<open>ErrBadVersion\<close>, a different error.
\<close>

theorem binary_magic_before_version:
  assumes "nodes fs filePath = File content"
    and "4 \<le> length content"
  shows "(Uint32 (take 4 content) \<noteq> BinaryMagic \<longrightarrow>
          loadFromBinary d fs ng filePath = (Some (ErrBadMagic (Uint32 (take 4 content))), ng))
       \<and> (Uint32 (take 4 content) = BinaryMagic \<and> 8 \<le> length content
          \<and> Uint32 (take 4 (drop 4 content)) \<noteq> BinaryVersion \<longrightarrow>
          loadFromBinary d fs ng filePath =
            (Some (ErrBadVersion (Uint32 (take 4 (drop 4 content)))), ng))
       \<and> ErrBadMagic m \<noteq> ErrBadVersion v"
  using assms
  by (auto simp add: loadFromBinary_def read_binary_def binary_Read32_def ReadFull_def)

theorem binary_magic_before_version_witness:
  "nodes (fs_with ''./test.cat'' [0, 0, 0, 0, 2, 0, 0, 0]) ''./test.cat'' = File [0, 0, 0, 0, 2, 0, 0, 0]
   \<and> 4 \<le> length [0, 0, 0, 0, 2, 0, 0, 0 :: byte]
   \<and> Uint32 (take 4 [0, 0, 0, 0, 2, 0, 0, 0]) \<noteq> BinaryMagic
   \<and> loadFromBinary (sim_deps []) (fs_with ''./test.cat'' [0, 0, 0, 0, 2, 0, 0, 0])
        (sim_ng 100 (Some cfg_binary) Map.empty) ''./test.cat''
       = (Some (ErrBadMagic 0), sim_ng 100 (Some cfg_binary) Map.empty)
   \<and> nodes (fs_with ''./test.cat'' [0x41, 0x43, 0x47, 0x4E, 2, 0, 0, 0]) ''./test.cat''
       = File [0x41, 0x43, 0x47, 0x4E, 2, 0, 0, 0]
   \<and> Uint32 (take 4 [0x41, 0x43, 0x47, 0x4E, 2, 0, 0, 0]) = BinaryMagic
   \<and> 8 \<le> length [0x41, 0x43, 0x47, 0x4E, 2, 0, 0, 0 :: byte]
   \<and> Uint32 (take 4 (drop 4 [0x41, 0x43, 0x47, 0x4E, 2, 0, 0, 0])) \<noteq> BinaryVersion
   \<and> loadFromBinary (sim_deps []) (fs_with ''./test.cat'' [0x41, 0x43, 0x47, 0x4E, 2, 0, 0, 0])
        (sim_ng 100 (Some cfg_binary) Map.empty) ''./test.cat''
       = (Some (ErrBadVersion 2), sim_ng 100 (Some cfg_binary) Map.empty)"
proof -
  have a: "nodes (fs_with ''./test.cat'' [0, 0, 0, 0, 2, 0, 0, 0]) ''./test.cat''
            = File [0, 0, 0, 0, 2, 0, 0, 0]"
    and b: "nodes (fs_with ''./test.cat'' [0x41, 0x43, 0x47, 0x4E, 2, 0, 0, 0]) ''./test.cat''
            = File [0x41, 0x43, 0x47, 0x4E, 2, 0, 0, 0]"
    by (simp_all add: fs_with_def)
  have la: "4 \<le> length [0, 0, 0, 0, 2, 0, 0, 0 :: byte]"
    and lb: "4 \<le> length [0x41, 0x43, 0x47, 0x4E, 2, 0, 0, 0 :: byte]"
    by simp_all
  have va: "Uint32 (take 4 [0, 0, 0, 0, 2, 0, 0, 0]) = 0"
    and vb: "Uint32 (take 4 [0x41, 0x43, 0x47, 0x4E, 2, 0, 0, 0]) = BinaryMagic"
    and vc: "Uint32 (take 4 (drop 4 [0x41, 0x43, 0x47, 0x4E, 2, 0, 0, 0])) = 2"
    by (simp_all add: Uint32_def BinaryMagic_def)
  show ?thesis
    using binary_magic_before_version [OF a la, of "sim_deps []" "sim_ng 100 (Some cfg_binary) Map.empty"]
      binary_magic_before_version [OF b lb, of "sim_deps []" "sim_ng 100 (Some cfg_binary) Map.empty"]
      a b va vb vc
    by (simp add: BinaryMagic_def BinaryVersion_def)
qed

subsection \<open>The compact-binary layout\<close>

lemma length_le_bytes [simp]: "length (le_bytes n x) = n"
  by (induction n arbitrary: x) simp_all

lemma Uint32_le_bytes: "n < 2 ^ 32 \<Longrightarrow> unat (Uint32 (le_bytes 4 n)) = n"
proof -
  assume n: "n < 2 ^ 32"
  then have "le_bytes 4 n = PutUint32 (word_of_nat n)"
    by (simp add: PutUint32_length_field)
  with n show ?thesis
    by (simp add: Uint32_PutUint32 unat_length_field)
qed

lemma written_snapshot_bytes:
  assumes "length (Entries data) < 2 ^ 32"
  shows "written_snapshot data =
     le_bytes 4 0x4E474341 @ le_bytes 4 1 @ le_bytes 8 (unat (Timestamp data)) @
     le_bytes 4 (length (Entries data)) @ concat (map written_record (Entries data))"
  using assms
  by (simp add: written_snapshot_def PutUint32_length_field PutUint32_consts PutUint64_le_bytes)

text \<open>
  Claim C6, as amended. For a document with fewer than \<open>2^32\<close> entries whose keys and values
  are each shorter than \<open>2^32\<close> bytes, the layout of the format description exists, and
  whenever \<^verbatim>\<open>saveToBinary\<close> returns no error the file holds exactly that layout; it returns
  no error when the file can be created and written. In the layout the little-endian
  magic number \<open>0x4E474341\<close> is at offset 0, the version 1 at offset 4, the timestamp at
  offset 8 (8 bytes), the number of entries at offset 16, and from offset 20 the records
  follow, one per entry in order, each the length of the key, the key, the length of
  the value and the value.
\<close>

theorem binary_layout_exact:
  assumes "length (Entries data) < 2 ^ 32"
    and "\<forall>entry\<in>set (Entries data). length (Key entry) < 2 ^ 32 \<and> length (Value entry) < 2 ^ 32"
  shows "\<exists>layout records.
           binary_layout data = Some layout
         \<and> (saveToBinary fs filePath data = (None, fs') \<longrightarrow> nodes fs' filePath = File layout)
         \<and> (\<not> create_fails fs filePath \<and> room fs = None \<longrightarrow>
              fst (saveToBinary fs filePath data) = None)
         \<and> take 4 layout = [0x41, 0x43, 0x47, 0x4E]
         \<and> take 4 (drop 4 layout) = [1, 0, 0, 0]
         \<and> take 8 (drop 8 layout) = le_bytes 8 (unat (Timestamp data))
         \<and> take 4 (drop 16 layout) = le_bytes 4 (length (Entries data))
         \<and> unat (Uint32 (take 4 (drop 16 layout))) = length (Entries data)
         \<and> drop 20 layout = records
         \<and> records_layout (Entries data) = Some records
         \<and> (\<forall>entry\<in>set (Entries data).
              record_layout entry =
                Some (le_bytes 4 (length (Key entry)) @ bytes_of_string (Key entry) @
                      le_bytes 4 (length (Value entry)) @ Value entry)
              \<and> unat (Uint32 (le_bytes 4 (length (Key entry)))) = length (Key entry)
              \<and> unat (Uint32 (le_bytes 4 (length (Value entry)))) = length (Value entry))"
proof -
  let ?layout = "written_snapshot data"
  let ?records = "concat (map written_record (Entries data))"
  have bytes: "?layout = le_bytes 4 0x4E474341 @ le_bytes 4 1 @ le_bytes 8 (unat (Timestamp data)) @
     le_bytes 4 (length (Entries data)) @ ?records"
    using assms(1) by (rule written_snapshot_bytes)
  have "binary_layout data = Some ?layout"
    using assms by (rule binary_layout_fits)
  moreover have "saveToBinary fs filePath data = (None, fs') \<longrightarrow> nodes fs' filePath = File ?layout"
    using saveToBinary_ok by blast
  moreover have "\<not> create_fails fs filePath \<and> room fs = None \<longrightarrow>
          fst (saveToBinary fs filePath data) = None"
    by (simp add: saveToBinary_unbounded)
  moreover have "take 4 ?layout = [0x41, 0x43, 0x47, 0x4E]"
    and "take 4 (drop 4 ?layout) = [1, 0, 0, 0]"
    unfolding bytes by (simp_all add: le_bytes_4)
  moreover have "take 8 (drop 8 ?layout) = le_bytes 8 (unat (Timestamp data))"
    and f: "take 4 (drop 16 ?layout) = le_bytes 4 (length (Entries data))"
    and "drop 20 ?layout = ?records"
    unfolding bytes by simp_all
  moreover have "unat (Uint32 (take 4 (drop 16 ?layout))) = length (Entries data)"
    unfolding f using assms(1) by (rule Uint32_le_bytes)
  moreover have "records_layout (Entries data) = Some ?records"
    using assms(2) by (rule records_layout_fit)
  moreover have "\<forall>entry\<in>set (Entries data).
              record_layout entry =
                Some (le_bytes 4 (length (Key entry)) @ bytes_of_string (Key entry) @
                      le_bytes 4 (length (Value entry)) @ Value entry)
              \<and> unat (Uint32 (le_bytes 4 (length (Key entry)))) = length (Key entry)
              \<and> unat (Uint32 (le_bytes 4 (length (Value entry)))) = length (Value entry)"
    using assms(2) by (simp add: record_layout_def uint32_field_def Uint32_le_bytes)
  ultimately show ?thesis
    by blast
qed

theorem binary_layout_exact_witness:
  "length (Entries \<lparr>Version = 1, Timestamp = 258, Entries = [\<lparr>Key = ''a'', Value = [0x78]\<rparr>]\<rparr>) < 2 ^ 32
   \<and> \<not> create_fails fs_empty ''./test.cat'' \<and> room fs_empty = None
   \<and> binary_layout \<lparr>Version = 1, Timestamp = 258, Entries = [\<lparr>Key = ''a'', Value = [0x78]\<rparr>]\<rparr>
       = Some [0x41, 0x43, 0x47, 0x4E,  1, 0, 0, 0,  2, 1, 0, 0, 0, 0, 0, 0,  1, 0, 0, 0,
               1, 0, 0, 0,  0x61,  1, 0, 0, 0,  0x78]
   \<and> fst (saveToBinary fs_empty ''./test.cat''
        \<lparr>Version = 1, Timestamp = 258, Entries = [\<lparr>Key = ''a'', Value = [0x78]\<rparr>]\<rparr>) = None
   \<and> nodes (snd (saveToBinary fs_empty ''./test.cat''
        \<lparr>Version = 1, Timestamp = 258, Entries = [\<lparr>Key = ''a'', Value = [0x78]\<rparr>]\<rparr>)) ''./test.cat''
       = File [0x41, 0x43, 0x47, 0x4E,  1, 0, 0, 0,  2, 1, 0, 0, 0, 0, 0, 0,  1, 0, 0, 0,
               1, 0, 0, 0,  0x61,  1, 0, 0, 0,  0x78]"
proof -
  let ?data = "\<lparr>Version = 1, Timestamp = 258, Entries = [\<lparr>Key = ''a'', Value = [0x78]\<rparr>]\<rparr>"
  let ?r = "saveToBinary fs_empty ''./test.cat'' ?data"
  let ?bytes = "[0x41, 0x43, 0x47, 0x4E,  1, 0, 0, 0,  2, 1, 0, 0, 0, 0, 0, 0,  1, 0, 0, 0,
       1, 0, 0, 0,  0x61,  1, 0, 0, 0,  0x78 :: byte]"
  have fs: "\<not> create_fails fs_empty ''./test.cat''" "room fs_empty = None"
    by (simp_all add: fs_empty_def)
  have count: "length (Entries ?data) < 2 ^ 32"
    and sizes: "\<forall>entry\<in>set (Entries ?data). length (Key entry) < 2 ^ 32 \<and> length (Value entry) < 2 ^ 32"
    by simp_all
  have bytes: "binary_layout ?data = Some ?bytes"
    by (simp add: binary_layout_def record_layout_def uint32_field_def le_bytes_4 le_bytes_8
        bytes_of_string_def)
  obtain layout where
    l: "binary_layout ?data = Some layout" and
    s: "?r = (None, snd ?r) \<longrightarrow> nodes (snd ?r) ''./test.cat'' = File layout" and
    ok: "\<not> create_fails fs_empty ''./test.cat'' \<and> room fs_empty = None \<longrightarrow> fst ?r = None"
    using binary_layout_exact [OF count sizes, of fs_empty "''./test.cat''" "snd ?r"] by blast
  have r: "fst ?r = None"
    using ok fs by blast
  then have "?r = (None, snd ?r)"
    by (metis prod.collapse)
  with s l bytes have "nodes (snd ?r) ''./test.cat'' = File ?bytes"
    by simp
  with fs r bytes count show ?thesis
    by simp
qed

text \<open>
  The claim as stated fails for a value of \<open>2^32\<close> bytes: \<^verbatim>\<open>saveToBinary\<close> returns no error
  and writes the value-length field as four zero bytes, with the \<open>2^32\<close> bytes of the
  value after it. The format has no layout for this document.
\<close>

theorem binary_layout_counterexample:
  "fst (saveToBinary fs_empty ''./test.cat'' huge_doc) = None
   \<and> nodes (snd (saveToBinary fs_empty ''./test.cat'' huge_doc)) ''./test.cat''
       = File ([0x41, 0x43, 0x47, 0x4E,  1, 0, 0, 0,  0, 0, 0, 0, 0, 0, 0, 0,  1, 0, 0, 0,
                1, 0, 0, 0,  0x6B,  0, 0, 0, 0] @ huge_value)
   \<and> length huge_value = 2 ^ 32
   \<and> binary_layout huge_doc = None"
proof -
  have len: "length huge_value = 2 ^ 32"
    by (simp add: huge_value_def)
  have fs: "\<not> create_fails fs_empty ''./test.cat''" "room fs_empty = None"
    by (simp_all add: fs_empty_def)
  have bytes: "written_snapshot huge_doc =
      [0x41, 0x43, 0x47, 0x4E,  1, 0, 0, 0,  0, 0, 0, 0, 0, 0, 0, 0,  1, 0, 0, 0,
       1, 0, 0, 0,  0x6B,  0, 0, 0, 0] @ huge_value"
    by (simp add: written_snapshot_def written_record_def huge_doc_def len PutUint32_def
        PutUint64_def BinaryMagic_def BinaryVersion_def bytes_of_string_def)
  have none: "binary_layout huge_doc = None"
    by (simp add: binary_layout_def record_layout_def uint32_field_def huge_doc_def len)
  show ?thesis
    using saveToBinary_unbounded [OF fs, of huge_doc] bytes len none by simp
qed

subsection \<open>The version of a structured-text snapshot\<close>

lemma loadFromJSON_decoded:
  "nodes fs filePath = File content \<Longrightarrow> json_Decode d content = Inr data \<Longrightarrow>
   loadFromJSON d fs ng filePath = (None, load_entries d (Entries data) ng)"
  by (simp add: loadFromJSON_def)

text \<open>
  Claim C5 fails on the code: \<^verbatim>\<open>loadFromJSON\<close> never looks at the decoded \<^verbatim>\<open>Version\<close>. A
  snapshot that says version 2 is loaded without an error, and its entry is in the
  permanent map afterwards. (\<^verbatim>\<open>loadFromBinary\<close> does compare the version it reads with
  \<^verbatim>\<open>BinaryVersion\<close>.)
\<close>

theorem loadFromJSON_accepts_version_2:
  "json_Decode (sim_deps [(json_v2_text, json_v2_doc)]) (bytes_of_string json_v2_text) = Inr json_v2_doc
   \<and> Version json_v2_doc = 2
   \<and> fst (loadFromJSON (sim_deps [(json_v2_text, json_v2_doc)])
        (fs_with ''./test.json'' (bytes_of_string json_v2_text))
        (sim_ng 100 (Some cfg_json) Map.empty) ''./test.json'') = None
   \<and> persistData (snd (loadFromJSON (sim_deps [(json_v2_text, json_v2_doc)])
        (fs_with ''./test.json'' (bytes_of_string json_v2_text))
        (sim_ng 100 (Some cfg_json) Map.empty) ''./test.json'')) ''a'' = Some [0x78]"
proof -
  let ?d = "sim_deps [(json_v2_text, json_v2_doc)]"
  let ?fs = "fs_with ''./test.json'' (bytes_of_string json_v2_text)"
  have dec: "json_Decode ?d (bytes_of_string json_v2_text) = Inr json_v2_doc"
    by (simp add: sim_deps_def)
  have snap: "nodes ?fs ''./test.json'' = File (bytes_of_string json_v2_text)"
    by (simp add: fs_with_def)
  have "persistData (load_entries ?d (Entries json_v2_doc) (sim_ng 100 (Some cfg_json) Map.empty)) ''a''
          = Some [0x78]"
    by (simp add: json_v2_doc_def persistData_store_loaded)
  with loadFromJSON_decoded [OF snap dec] dec show ?thesis
    by (simp add: json_v2_doc_def)
qed

subsection \<open>Evaluating the loader on concrete files\<close>









subsection \<open>Construction and a snapshot that cannot be decoded\<close>




lemma NewNGCache_enabled:
  "Enabled cfg \<Longrightarrow>
   NewNGCache d fs cacheSize (Some cfg) =
     snd (loadFromPersist d fs
            \<lparr>cache = cache_New d cacheSize, persistConfig = Some cfg, persistData = Map.empty\<rparr>)"
  by (simp add: NewNGCache_def)




subsection \<open>Saving and loading a snapshot\<close>














subsection \<open>Loading never removes a key\<close>

lemma load_entries_keeps:
  "persistData ng k \<noteq> None \<Longrightarrow> persistData (load_entries d es ng) k \<noteq> None"
proof (induction es arbitrary: ng)
  case Nil
  then show ?case by simp
next
  case (Cons entry es)
  have "persistData (store_loaded d ng (bytes_of_string (Key entry)) (Value entry)) k \<noteq> None"
    using Cons.prems by (simp add: persistData_store_loaded)
  from Cons.IH [OF this] show ?case by simp
qed

lemma read_entries_keeps:
  "persistData ng k \<noteq> None \<Longrightarrow> persistData (snd (read_entries d n r ng)) k \<noteq> None"
proof (induction n arbitrary: r ng)
  case 0
  then show ?case by simp
next
  case (Suc n)
  have step: "persistData (store_loaded d ng kb vb) k \<noteq> None" for kb vb
    using Suc.prems by (simp add: persistData_store_loaded)
  show ?case
    using Suc.prems Suc.IH [OF step]
    by (auto split: prod.splits option.splits)
qed

lemma loadFromPersist_keeps:
  "persistData ng k \<noteq> None \<Longrightarrow> persistData (snd (loadFromPersist d fs ng)) k \<noteq> None"
  using read_entries_keeps [of ng k d] load_entries_keeps [of ng k d]
  by (auto simp: loadFromPersist_def loadFromJSON_def loadFromBinary_def read_binary_def
      split: option.splits fnode.splits sum.splits prod.splits)

lemma NewNGCache_not_enabled:
  "persistData (NewNGCache d fs cacheSize None) = Map.empty"
  "\<not> Enabled cfg \<Longrightarrow> persistData (NewNGCache d fs cacheSize (Some cfg)) = Map.empty"
  by (simp_all add: NewNGCache_def)

subsection \<open>The functions over the heap\<close>

lemma h_setWithPersist_fields:
  "hrefs (snd (h_setWithPersist d s key val e)) =
     (if e \<le> 0 then (hrefs s)(key \<mapsto> Made (hnext s)) else hrefs s)"
  "hmem (snd (h_setWithPersist d s key val e)) =
     (if e \<le> 0 then (hmem s)(Made (hnext s) := hmem s val) else hmem s)"
  "hnext (snd (h_setWithPersist d s key val e)) = (if e \<le> 0 then Suc (hnext s) else hnext s)"
  "hheld (snd (h_setWithPersist d s key val e)) = hheld s"
  "hconfig (snd (h_setWithPersist d s key val e)) = hconfig s"
  by (simp_all add: h_setWithPersist_def make_copy_def Let_def split: prod.splits)

lemma h_getWithPersist_fields:
  "hrefs (snd (h_getWithPersist d s key)) = hrefs s"
  "hconfig (snd (h_getWithPersist d s key)) = hconfig s"
  "hheld (snd (h_getWithPersist d s key)) = hheld s"
  "hnext s \<le> hnext (snd (h_getWithPersist d s key))"
  "a \<noteq> Made (hnext s) \<Longrightarrow> hmem (snd (h_getWithPersist d s key)) a = hmem s a"
  by (simp_all add: h_getWithPersist_def make_copy_def Let_def split: prod.splits option.splits)

lemma h_getWithPersist_result:
  "fst (fst (h_getWithPersist d s key)) = Some a \<Longrightarrow>
   a = Made (hnext s) \<and> hnext (snd (h_getWithPersist d s key)) = Suc (hnext s)
   \<or> hrefs s key = Some a \<and> hnext (snd (h_getWithPersist d s key)) = hnext s"
  by (auto simp: h_getWithPersist_def make_copy_def Let_def split: prod.splits option.splits)

lemma h_SetPermanent_fields:
  "hmem (snd (h_SetPermanent d s key val)) = hmem s"
  "hnext (snd (h_SetPermanent d s key val)) = hnext s"
  "hheld (snd (h_SetPermanent d s key val)) = hheld s"
  "hconfig (snd (h_SetPermanent d s key val)) = hconfig s"
  "string_of_bytes key \<noteq> k \<Longrightarrow> hrefs (snd (h_SetPermanent d s key val)) k = hrefs s k"
  "hrefs (snd (h_SetPermanent d s key val)) k = hrefs s k
   \<or> hrefs (snd (h_SetPermanent d s key val)) k = Some val"
  by (simp_all add: h_SetPermanent_def split: prod.splits option.splits)

lemma h_GetPermanent_fields:
  "hrefs (snd (h_GetPermanent d s key)) = hrefs s"
  "hconfig (snd (h_GetPermanent d s key)) = hconfig s"
  "hheld (snd (h_GetPermanent d s key)) = hheld s"
  "hnext s \<le> hnext (snd (h_GetPermanent d s key))"
  "a \<noteq> Made (hnext s) \<Longrightarrow> hmem (snd (h_GetPermanent d s key)) a = hmem s a"
  by (simp_all add: h_GetPermanent_def make_copy_def Let_def split: prod.splits option.splits)

lemma h_GetPermanent_result:
  "fst (fst (h_GetPermanent d s key)) = Some a \<Longrightarrow>
   a = Made (hnext s) \<and> hnext (snd (h_GetPermanent d s key)) = Suc (hnext s)
   \<or> hrefs s (string_of_bytes key) = Some a \<and> hnext (snd (h_GetPermanent d s key)) = hnext s"
  by (auto simp: h_GetPermanent_def make_copy_def Let_def split: prod.splits option.splits if_splits)

lemma hold_fields [simp]:
  "hrefs (hold r s) = hrefs s" "hmem (hold r s) = hmem s" "hnext (hold r s) = hnext s"
  "hconfig (hold r s) = hconfig s"
  "hheld (hold r s) = (case r of None \<Rightarrow> hheld s | Some a \<Rightarrow> insert a (hheld s))"
  by (simp_all add: hold_def split: option.splits)

text \<open>Seen through the heap, the functions over the heap are the functions of the first
  sections.\<close>

lemma h_abs_setWithPersist:
  assumes "heap_ok s"
  shows "fst (h_setWithPersist d s key val e) = fst (setWithPersist d (h_abs s) key (hmem s val) e)"
    and "h_abs (snd (h_setWithPersist d s key val e)) =
           snd (setWithPersist d (h_abs s) key (hmem s val) e)"
proof -
  have fresh: "hrefs s k \<noteq> Some (Made (hnext s))" for k
    using assms by (auto simp: heap_ok_def)
  have store: "(\<lambda>k. map_option ((hmem s)(Made (hnext s) := v)) (((hrefs s)(key \<mapsto> Made (hnext s))) k))
      = (\<lambda>k. map_option (hmem s) (hrefs s k))(key \<mapsto> v)" for v
  proof
    fix k
    show "map_option ((hmem s)(Made (hnext s) := v)) (((hrefs s)(key \<mapsto> Made (hnext s))) k)
      = ((\<lambda>k. map_option (hmem s) (hrefs s k))(key \<mapsto> v)) k"
      using fresh [of k] by (cases "hrefs s k") auto
  qed
  show "fst (h_setWithPersist d s key val e) = fst (setWithPersist d (h_abs s) key (hmem s val) e)"
    by (simp add: h_setWithPersist_def setWithPersist_def h_abs_def make_copy_def Let_def
        split: prod.splits)
  show "h_abs (snd (h_setWithPersist d s key val e)) =
           snd (setWithPersist d (h_abs s) key (hmem s val) e)"
    using store [of "hmem s val"]
    by (simp add: h_setWithPersist_def setWithPersist_def h_abs_def make_copy_def Let_def
        split: prod.splits)
qed

lemma h_abs_getWithPersist:
  assumes "heap_ok s"
  shows "map_option (hmem (snd (h_getWithPersist d s key))) (fst (fst (h_getWithPersist d s key)))
           = (if snd (fst (getWithPersist d (h_abs s) key)) = None
              then Some (fst (fst (getWithPersist d (h_abs s) key))) else None)"
    and "snd (fst (h_getWithPersist d s key)) = snd (fst (getWithPersist d (h_abs s) key))"
    and "h_abs (snd (h_getWithPersist d s key)) = snd (getWithPersist d (h_abs s) key)"
proof -
  have fresh: "hrefs s k \<noteq> Some (Made (hnext s))" for k
    using assms by (auto simp: heap_ok_def)
  have store: "(\<lambda>k. map_option ((hmem s)(Made (hnext s) := v)) (hrefs s k))
      = (\<lambda>k. map_option (hmem s) (hrefs s k))" for v
  proof
    fix k
    show "map_option ((hmem s)(Made (hnext s) := v)) (hrefs s k) = map_option (hmem s) (hrefs s k)"
      using fresh [of k] by (cases "hrefs s k") auto
  qed
  show "map_option (hmem (snd (h_getWithPersist d s key))) (fst (fst (h_getWithPersist d s key)))
           = (if snd (fst (getWithPersist d (h_abs s) key)) = None
              then Some (fst (fst (getWithPersist d (h_abs s) key))) else None)"
    by (auto simp: h_getWithPersist_def getWithPersist_def h_abs_def make_copy_def Let_def
        split: prod.splits option.splits)
  show "snd (fst (h_getWithPersist d s key)) = snd (fst (getWithPersist d (h_abs s) key))"
    by (auto simp: h_getWithPersist_def getWithPersist_def h_abs_def make_copy_def Let_def
        split: prod.splits option.splits)
  show "h_abs (snd (h_getWithPersist d s key)) = snd (getWithPersist d (h_abs s) key)"
    using store
    by (auto simp: h_getWithPersist_def getWithPersist_def h_abs_def make_copy_def Let_def
        split: prod.splits option.splits)
qed

lemma h_abs_SetPermanent:
  "fst (h_SetPermanent d s key val) = fst (SetPermanent d (h_abs s) key (hmem s val))"
  "h_abs (snd (h_SetPermanent d s key val)) = snd (SetPermanent d (h_abs s) key (hmem s val))"
  by (auto simp: h_SetPermanent_def SetPermanent_def h_abs_def persistEnabled_def fun_eq_iff
      split: prod.splits option.splits)

subsection \<open>Permanent entries stay\<close>

lemma hstep_keeps:
  "hrefs (fst w) k \<noteq> None \<Longrightarrow> hrefs (fst (hstep d w op)) k \<noteq> None"
proof (cases w)
  case (Pair s fs)
  assume k: "hrefs (fst w) k \<noteq> None"
  show ?thesis
  proof (cases op)
    case (HSetPermanent key val)
    with Pair k h_SetPermanent_fields(6) [of d s key val k] show ?thesis by auto
  qed (use Pair k in \<open>auto simp: make_copy_def h_setWithPersist_fields h_getWithPersist_fields
        h_GetPermanent_fields\<close>)
qed

lemma hstep_ok:
  "heap_ok (fst w) \<Longrightarrow> heap_ok (fst (hstep d w op))"
proof (cases w)
  case (Pair s fs)
  assume "heap_ok (fst w)"
  with Pair have ok: "\<And>k n. hrefs s k = Some (Made n) \<Longrightarrow> n < hnext s"
    "\<And>n. Made n \<in> hheld s \<Longrightarrow> n < hnext s"
    by (auto simp: heap_ok_def)
  show ?thesis
  proof (cases op)
    case (HMake v)
    with Pair ok show ?thesis
      by (auto simp: heap_ok_def make_copy_def less_Suc_eq)
  next
    case (HWrite a i b)
    with Pair ok show ?thesis
      by (auto simp: heap_ok_def)
  next
    case (HPut key val e)
    with Pair ok show ?thesis
      by (auto simp: heap_ok_def h_setWithPersist_fields less_Suc_eq split: if_splits)
  next
    case (HFetch key)
    have "n < hnext (snd (h_getWithPersist d s key))" if "n < hnext s" for n
      using that h_getWithPersist_fields(4) [of s d key] by simp
    moreover have "n < hnext (snd (h_getWithPersist d s key))"
      if "fst (fst (h_getWithPersist d s key)) = Some (Made n)" for n
      using h_getWithPersist_result [OF that] ok(1) by auto
    ultimately show ?thesis
      using Pair HFetch ok
      by (auto simp: heap_ok_def h_getWithPersist_fields split: option.splits)
  next
    case (HSetPermanent key val)
    have "n < hnext s" if "hrefs (snd (h_SetPermanent d s key val)) k = Some (Made n)"
      and "val \<in> hheld s" for k n
      using that ok h_SetPermanent_fields(6) [of d s key val k] by auto
    with Pair HSetPermanent ok show ?thesis
      by (auto simp: heap_ok_def h_SetPermanent_fields)
  next
    case (HGetPermanent key)
    have "n < hnext (snd (h_GetPermanent d s key))" if "n < hnext s" for n
      using that h_GetPermanent_fields(4) [of s d key] by simp
    moreover have "n < hnext (snd (h_GetPermanent d s key))"
      if "fst (fst (h_GetPermanent d s key)) = Some (Made n)" for n
      using h_GetPermanent_result [OF that] ok(1) by auto
    ultimately show ?thesis
      using Pair HGetPermanent ok
      by (auto simp: heap_ok_def h_GetPermanent_fields split: option.splits)
  next
    case (HFlush order now)
    with Pair ok show ?thesis
      by (auto simp: heap_ok_def)
  qed
qed

lemma hstep_same:
  assumes "heap_ok (fst w)" and "hrefs (fst w) k = Some a"
    and "\<not> overwrites op k" and "\<not> writes_into op a"
  shows "hrefs (fst (hstep d w op)) k = Some a \<and> hmem (fst (hstep d w op)) a = hmem (fst w) a"
proof (cases w)
  case (Pair s fs)
  with assms have k: "hrefs s k = Some a" and ok: "heap_ok s"
    by simp_all
  then have made: "a \<noteq> Made (hnext s)"
    by (auto simp: heap_ok_def)
  show ?thesis
  proof (cases op)
    case (HMake v)
    with Pair k made show ?thesis by (simp add: make_copy_def)
  next
    case (HWrite a' i b)
    with Pair k assms(4) show ?thesis by auto
  next
    case (HPut key val e)
    with Pair k made assms(3) show ?thesis
      by (auto simp: h_setWithPersist_fields)
  next
    case (HFetch key)
    with Pair k made show ?thesis
      by (simp add: h_getWithPersist_fields)
  next
    case (HSetPermanent key val)
    with Pair k assms(3) show ?thesis
      by (simp add: h_SetPermanent_fields)
  next
    case (HGetPermanent key)
    with Pair k made show ?thesis
      by (simp add: h_GetPermanent_fields)
  next
    case (HFlush order now)
    with Pair k show ?thesis by simp
  qed
qed

lemma hrun_keeps:
  "hrefs (fst w) k \<noteq> None \<Longrightarrow> hrefs (fst (hrun d w ops)) k \<noteq> None"
  unfolding hrun_def
proof (induction ops arbitrary: w)
  case Nil
  then show ?case by simp
next
  case (Cons op ops)
  have "hrefs (fst (hstep d w op)) k \<noteq> None"
    using Cons.prems by (rule hstep_keeps)
  from Cons.IH [OF this] show ?case by simp
qed

lemma hrun_ok:
  "heap_ok (fst w) \<Longrightarrow> heap_ok (fst (hrun d w ops))"
  unfolding hrun_def
proof (induction ops arbitrary: w)
  case Nil
  then show ?case by simp
next
  case (Cons op ops)
  have "heap_ok (fst (hstep d w op))"
    using Cons.prems by (rule hstep_ok)
  from Cons.IH [OF this] show ?case by simp
qed

lemma hrun_same:
  assumes "heap_ok (fst w)" and "hrefs (fst w) k = Some a"
    and "\<forall>op\<in>set ops. \<not> overwrites op k \<and> \<not> writes_into op a"
  shows "hrefs (fst (hrun d w ops)) k = Some a \<and> hmem (fst (hrun d w ops)) a = hmem (fst w) a"
  using assms unfolding hrun_def
proof (induction ops arbitrary: w)
  case Nil
  then show ?case by simp
next
  case (Cons op ops)
  have one: "hrefs (fst (hstep d w op)) k = Some a \<and> hmem (fst (hstep d w op)) a = hmem (fst w) a"
    using Cons.prems by (intro hstep_same) simp_all
  have "heap_ok (fst (hstep d w op))"
    using Cons.prems(1) by (rule hstep_ok)
  from Cons.IH [OF this] one Cons.prems(3) show ?case by simp
qed

lemma h_NewNGCache_ok: "heap_ok (h_NewNGCache d fs cacheSize config)"
  by (simp add: heap_ok_def h_NewNGCache_def Let_def split: option.splits)

lemma stored_h_NewNGCache:
  "stored (h_NewNGCache d fs cacheSize config) = persistData (NewNGCache d fs cacheSize config)"
  by (auto simp: stored_def h_NewNGCache_def Let_def fun_eq_iff split: option.splits)

lemma put_private_copy:
  assumes "heap_ok s" and "val \<in> hheld s" and "e \<le> 0"
  shows "hrefs (snd (h_setWithPersist d s key val e)) key = Some (Made (hnext s))
       \<and> Made (hnext s) \<notin> hheld (snd (h_setWithPersist d s key val e))
       \<and> Made (hnext s) \<noteq> val
       \<and> stored (snd (h_setWithPersist d s key val e)) key = Some (hmem s val)"
  using assms by (auto simp: heap_ok_def stored_def h_setWithPersist_fields)

text \<open>
  Claim C9, as amended. Along every sequence of operations of a caller (making slices,
  writing into slices it holds, Put, Fetch, SetPermanent, GetPermanent, flush) a key that
  is in the permanent map stays in it. As long as no operation assigns to the key (a Put
  of the key with \<open>expireSeconds \<le> 0\<close>, a SetPermanent of the key) and the caller does not
  write into the slice stored under the key, the key keeps that slice and its bytes. A
  Put with \<open>expireSeconds \<le> 0\<close> stores a copy that the caller does not hold. The
  constructor starts from the empty map and fills it only by the one load it runs when
  persistence is enabled, with slices the caller does not hold; a load never removes a
  key.
\<close>

theorem permanent_entries_stay:
  "(hrefs (fst w) k \<noteq> None \<longrightarrow> hrefs (fst (hrun d w ops)) k \<noteq> None)
   \<and> (heap_ok (fst w) \<and> hrefs (fst w) k = Some a
        \<and> (\<forall>op\<in>set ops. \<not> overwrites op k \<and> \<not> writes_into op a) \<longrightarrow>
        hrefs (fst (hrun d w ops)) k = Some a
        \<and> stored (fst (hrun d w ops)) k = stored (fst w) k)
   \<and> (heap_ok s \<and> val \<in> hheld s \<and> expireSeconds \<le> 0 \<longrightarrow>
        hrefs (snd (h_setWithPersist d s key val expireSeconds)) key = Some (Made (hnext s))
        \<and> Made (hnext s) \<notin> hheld (snd (h_setWithPersist d s key val expireSeconds))
        \<and> Made (hnext s) \<noteq> val
        \<and> stored (snd (h_setWithPersist d s key val expireSeconds)) key = Some (hmem s val))
   \<and> heap_ok (h_NewNGCache d fs cacheSize config)
   \<and> hheld (h_NewNGCache d fs cacheSize config) = {}
   \<and> stored (h_NewNGCache d fs cacheSize None) = Map.empty
   \<and> (\<not> Enabled cfg \<longrightarrow> stored (h_NewNGCache d fs cacheSize (Some cfg)) = Map.empty)
   \<and> (Enabled cfg \<longrightarrow>
        stored (h_NewNGCache d fs cacheSize (Some cfg)) =
          persistData (snd (loadFromPersist d fs
                 \<lparr>cache = cache_New d cacheSize, persistConfig = Some cfg,
                  persistData = Map.empty\<rparr>)))
   \<and> (persistData ng k \<noteq> None \<longrightarrow> persistData (snd (loadFromPersist d fs ng)) k \<noteq> None)"
proof -
  have "heap_ok (fst w) \<and> hrefs (fst w) k = Some a
        \<and> (\<forall>op\<in>set ops. \<not> overwrites op k \<and> \<not> writes_into op a) \<longrightarrow>
        hrefs (fst (hrun d w ops)) k = Some a
        \<and> stored (fst (hrun d w ops)) k = stored (fst w) k"
    using hrun_same [of w k a ops d] by (auto simp: stored_def)
  moreover have "heap_ok s \<and> val \<in> hheld s \<and> expireSeconds \<le> 0 \<longrightarrow>
        hrefs (snd (h_setWithPersist d s key val expireSeconds)) key = Some (Made (hnext s))
        \<and> Made (hnext s) \<notin> hheld (snd (h_setWithPersist d s key val expireSeconds))
        \<and> Made (hnext s) \<noteq> val
        \<and> stored (snd (h_setWithPersist d s key val expireSeconds)) key = Some (hmem s val)"
    using put_private_copy [of s val expireSeconds d key] by blast
  moreover have "hheld (h_NewNGCache d fs cacheSize config) = {}"
    by (simp add: h_NewNGCache_def Let_def)
  moreover have "stored (h_NewNGCache d fs cacheSize None) = Map.empty"
    and "\<not> Enabled cfg \<longrightarrow> stored (h_NewNGCache d fs cacheSize (Some cfg)) = Map.empty"
    by (simp_all add: stored_h_NewNGCache NewNGCache_not_enabled)
  moreover have "Enabled cfg \<longrightarrow>
        stored (h_NewNGCache d fs cacheSize (Some cfg)) =
          persistData (snd (loadFromPersist d fs
                 \<lparr>cache = cache_New d cacheSize, persistConfig = Some cfg,
                  persistData = Map.empty\<rparr>))"
    by (simp add: stored_h_NewNGCache NewNGCache_enabled)
  ultimately show ?thesis
    using hrun_keeps [of w k d ops] h_NewNGCache_ok [of d fs cacheSize config]
      loadFromPersist_keeps [of ng k d fs]
    by blast
qed

lemma sim_deps_sel [simp]:
  "cache_New (sim_deps table) = sim_New"
  "cache_Set (sim_deps table) = sim_Set"
  "cache_Get (sim_deps table) = sim_Get"
  by (simp_all add: sim_deps_def)

lemma sim_h_new:
  "h_NewNGCache (sim_deps table) fs_empty 100 (Some cfg_binary) =
      \<lparr>hcache = sim_New 100, hconfig = Some cfg_binary, hrefs = Map.empty,
       hmem = (\<lambda>a. []), hnext = 0, hheld = {}\<rparr>"
proof -
  have "(\<lambda>a. case a of Loaded k \<Rightarrow> [] | Made n \<Rightarrow> []) = (\<lambda>a. [] :: bytes)"
    by (auto simp: fun_eq_iff split: addr.splits)
  then show ?thesis
    by (simp add: h_NewNGCache_def NewNGCache_def loadFromPersist_def fs_empty_def cfg_binary_def)
qed

text \<open>
  A run on a new cache: the caller makes a slice and Puts it under \<open>a\<close>; then it makes
  and Puts another under \<open>b\<close>, Fetches \<open>a\<close> (the engine answers with a fresh slice),
  writes into that slice and into its own first slice, Puts \<open>a\<close> with an expiry, and
  flushes. The slice stored under \<open>a\<close> and its bytes are as the first Put left them.
\<close>

theorem permanent_entries_stay_witness:
  "heap_ok (fst (hrun (sim_deps []) (h_NewNGCache (sim_deps []) fs_empty 100 (Some cfg_binary), fs_empty)
      [HMake [1], HPut ''a'' (Made 0) 0]))
   \<and> hrefs (fst (hrun (sim_deps []) (h_NewNGCache (sim_deps []) fs_empty 100 (Some cfg_binary), fs_empty)
      [HMake [1], HPut ''a'' (Made 0) 0])) ''a'' = Some (Made 1)
   \<and> stored (fst (hrun (sim_deps []) (h_NewNGCache (sim_deps []) fs_empty 100 (Some cfg_binary), fs_empty)
      [HMake [1], HPut ''a'' (Made 0) 0])) ''a'' = Some [1]
   \<and> stored (fst (hrun (sim_deps [])
        (hrun (sim_deps []) (h_NewNGCache (sim_deps []) fs_empty 100 (Some cfg_binary), fs_empty)
           [HMake [1], HPut ''a'' (Made 0) 0])
        [HMake [2], HPut ''b'' (Made 2) 0, HFetch ''a'', HWrite (Made 4) 0 9, HWrite (Made 0) 0 9,
         HPut ''a'' (Made 0) 5, HFlush [''a'', ''b''] 0])) ''a'' = Some [1]
   \<and> Enabled cfg_binary"
proof -
  let ?d = "sim_deps []"
  let ?w0 = "(h_NewNGCache ?d fs_empty 100 (Some cfg_binary), fs_empty)"
  let ?w1 = "hrun ?d ?w0 [HMake [1], HPut ''a'' (Made 0) 0]"
  let ?ops = "[HMake [2], HPut ''b'' (Made 2) 0, HFetch ''a'', HWrite (Made 4) 0 9,
               HWrite (Made 0) 0 9, HPut ''a'' (Made 0) 5, HFlush [''a'', ''b''] 0]"
  have "heap_ok (fst ?w0)"
    by (simp add: h_NewNGCache_ok)
  then have ok: "heap_ok (fst ?w1)"
    by (rule hrun_ok)
  have ref: "hrefs (fst ?w1) ''a'' = Some (Made 1)"
    and val: "stored (fst ?w1) ''a'' = Some [1]"
    by (simp_all add: sim_h_new hrun_def stored_def make_copy_def hold_def h_setWithPersist_def
        sim_Set_def sim_New_def Let_def)
  have quiet: "\<forall>op\<in>set ?ops. \<not> overwrites op ''a'' \<and> \<not> writes_into op (Made 1)"
    by simp
  have en: "Enabled cfg_binary"
    by (simp add: cfg_binary_def)
  have "stored (fst (hrun ?d ?w1 ?ops)) ''a'' = stored (fst ?w1) ''a''"
    using permanent_entries_stay [of ?w1 "''a''" ?d ?ops "Made 1"] ok ref quiet by blast
  with ok ref val en show ?thesis
    by simp
qed

text \<open>
  The claim as stated fails: the value of a key changes without any Put, SetPermanent or
  load. After a Put of \<open>a\<close> and the loss of \<open>a\<close> in the engine, a Fetch returns the slice
  that is in the map, and the caller's write into it changes the stored value from
  \<open>[1]\<close> to \<open>[0x63]\<close>. After a SetPermanent of \<open>b\<close> with persistence enabled, the caller's
  write into the slice it passed changes the stored value in the same way.
\<close>

theorem permanent_entries_counterexample:
  "stored (h_evicted (fst (hrun (sim_deps [])
        (h_NewNGCache (sim_deps []) fs_empty 100 (Some cfg_binary), fs_empty)
        [HMake [1], HPut ''a'' (Made 0) 0])) ''a'') ''a'' = Some [1]
   \<and> stored (fst (hrun (sim_deps [])
        (h_evicted (fst (hrun (sim_deps [])
           (h_NewNGCache (sim_deps []) fs_empty 100 (Some cfg_binary), fs_empty)
           [HMake [1], HPut ''a'' (Made 0) 0])) ''a'', fs_empty)
        [HFetch ''a'', HWrite (Made 1) 0 0x63])) ''a'' = Some [0x63]
   \<and> stored (fst (hrun (sim_deps [])
        (h_NewNGCache (sim_deps []) fs_empty 100 (Some cfg_binary), fs_empty)
        [HMake [1], HSetPermanent (bytes_of_string ''b'') (Made 0)])) ''b'' = Some [1]
   \<and> stored (fst (hrun (sim_deps [])
        (h_NewNGCache (sim_deps []) fs_empty 100 (Some cfg_binary), fs_empty)
        [HMake [1], HSetPermanent (bytes_of_string ''b'') (Made 0), HWrite (Made 0) 0 0x63])) ''b''
       = Some [0x63]"
proof -
  let ?d = "sim_deps []"
  let ?w0 = "(h_NewNGCache ?d fs_empty 100 (Some cfg_binary), fs_empty)"
  have put: "fst (hrun ?d ?w0 [HMake [1], HPut ''a'' (Made 0) 0]) =
      \<lparr>hcache = \<lparr>held = [(bytes_of_string ''a'', [1])], max_entry = 100,
                 set_calls = [(bytes_of_string ''a'', [1], 0)]\<rparr>,
       hconfig = Some cfg_binary, hrefs = [''a'' \<mapsto> Made 1],
       hmem = (\<lambda>a. [])(Made 0 := [1], Made 1 := [1]), hnext = 2, hheld = {Made 0}\<rparr>"
    by (simp add: sim_h_new hrun_def make_copy_def hold_def h_setWithPersist_def sim_Set_def
        sim_New_def Let_def)
  have 1: "stored (h_evicted (fst (hrun ?d ?w0 [HMake [1], HPut ''a'' (Made 0) 0])) ''a'') ''a''
      = Some [1]"
    by (simp add: put h_evicted_def stored_def)
  have 2: "stored (fst (hrun ?d
        (h_evicted (fst (hrun ?d ?w0 [HMake [1], HPut ''a'' (Made 0) 0])) ''a'', fs_empty)
        [HFetch ''a'', HWrite (Made 1) 0 0x63])) ''a'' = Some [0x63]"
    unfolding put
    by (simp add: h_evicted_def stored_def hrun_def hold_def h_getWithPersist_def sim_Get_def
        sim_Set_def sim_evict_def)
  have 3: "stored (fst (hrun ?d ?w0 [HMake [1], HSetPermanent (bytes_of_string ''b'') (Made 0)])) ''b''
      = Some [1]"
    unfolding sim_h_new
    by (simp add: hrun_def stored_def make_copy_def hold_def h_SetPermanent_def
        h_abs_def persistEnabled_def sim_Set_def sim_New_def cfg_binary_def)
  have 4: "stored (fst (hrun ?d ?w0
        [HMake [1], HSetPermanent (bytes_of_string ''b'') (Made 0), HWrite (Made 0) 0 0x63])) ''b''
      = Some [0x63]"
    unfolding sim_h_new
    by (simp add: hrun_def stored_def make_copy_def hold_def h_SetPermanent_def
        h_abs_def persistEnabled_def sim_Set_def sim_New_def cfg_binary_def)
  from 1 2 3 4 show ?thesis
    by blast
qed

end
